theory Spec2Isabelle
  imports Main "HOL-Library.AList" "HOL-Library.List_Lexorder" "HOL-Library.Char_ord"
begin

section \<open>World Cup 2026 simulator: groups and knockout bracket\<close>

text \<open>
  A shallow embedding of \<^verbatim>\<open>app.py\<close>. Python's \<^verbatim>\<open>str\<close> is modelled as
  \<^typ>\<open>string\<close>, one \<^typ>\<open>char\<close> per code point (every string the program compares
  or measures consists of code points below 256). Python's \<^verbatim>\<open>int\<close> is \<^typ>\<open>int\<close>.
  A dictionary is an association list in insertion order: \<^const>\<open>map_of\<close> reads it,
  \<^const>\<open>AList.update\<close> stores (in place for a present key, at the end for a new one)
  and \<^const>\<open>AList.delete\<close> removes a key. An exception is a value \<open>Inl e\<close> of a sum.
\<close>

datatype py_error = IndexError | KeyError | TypeError

text \<open>\<^verbatim>\<open>xs[i]\<close> for a natural index and \<^verbatim>\<open>d[k]\<close>: both raise when the entry is missing.\<close>

definition list_index :: "'a list \<Rightarrow> nat \<Rightarrow> py_error + 'a" where
  "list_index xs i = (if i < length xs then Inr (xs ! i) else Inl IndexError)"

definition dict_index :: "('k \<times> 'v) list \<Rightarrow> 'k \<Rightarrow> py_error + 'v" where
  "dict_index d k = (case map_of d k of Some v \<Rightarrow> Inr v | None \<Rightarrow> Inl KeyError)"

text \<open>\<^verbatim>\<open>d.get(k)\<close> on a dictionary whose values are optional.\<close>

definition dict_get :: "('k \<times> 'v option) list \<Rightarrow> 'k \<Rightarrow> 'v option" where
  "dict_get d k = (case map_of d k of Some v \<Rightarrow> v | None \<Rightarrow> None)"

text \<open>A \<^verbatim>\<open>for\<close> loop whose body updates a state and may raise: the loop stops at the
  first exception.\<close>

fun for_each :: "('a \<Rightarrow> 's \<Rightarrow> py_error + 's) \<Rightarrow> 'a list \<Rightarrow> 's \<Rightarrow> py_error + 's" where
  "for_each body [] s = Inr s"
| "for_each body (x # xs) s =
     (case body x s of Inl e \<Rightarrow> Inl e | Inr s' \<Rightarrow> for_each body xs s')"

text \<open>Truthiness of an \<^verbatim>\<open>Optional[str]\<close>: \<^verbatim>\<open>None\<close> and the empty string are false.\<close>

definition truthy :: "string option \<Rightarrow> bool" where
  "truthy t = (case t of None \<Rightarrow> False | Some s \<Rightarrow> s \<noteq> [])"

subsection \<open>Configuration\<close>

definition INITIAL_GROUPS :: "(string \<times> string list) list" where
  "INITIAL_GROUPS =
    [(''A'', [''Mexico'', ''South Africa'', ''South Korea'', ''UEFA D (DEN/MKD/CZE/IRL)'']),
     (''B'', [''Canada'', ''UEFA A (ITA/NIR/WAL/BIH)'', ''Qatar'', ''Switzerland'']),
     (''C'', [''Brazil'', ''Morrocco'', ''Haiti'', ''Scotland'']),
     (''D'', [''USA'', ''Paraguay'', ''Australia'', ''UEFA C (SVK/KOS/TUR/ROU)'']),
     (''E'', [''Germany'', ''Cura'' @ [CHR 0xE7] @ ''ao'', ''Ivory Coast'', ''Ecuador'']),
     (''F'', [''Netherlands'', ''Japan'', ''UEFA B (UKR/SWE/POL/ALB)'', ''Tunisia'']),
     (''G'', [''Belgium'', ''Egypt'', ''Iran'', ''New Zealand'']),
     (''H'', [''Spain'', ''Cabo Verde'', ''Saudi Arabia'', ''Uruguay'']),
     (''I'', [''France'', ''Senegal'', ''IC2 (BOL/SUR/IRQ)'', ''Norway'']),
     (''J'', [''Argentina'', ''Algeria'', ''Austria'', ''Jordan'']),
     (''K'', [''Portugal'', ''IC1 (NCL/JAM/COD)'', ''Uzbekistan'', ''Colombia'']),
     (''L'', [''England'', ''Croatia'', ''Ghana'', ''Panama''])]"

definition GROUP_NAMES :: "string list" where
  "GROUP_NAMES = sort (map fst INITIAL_GROUPS)"

subsection \<open>Utility functions\<close>

text \<open>The decimal rendering of an integer, as an f-string field prints it.\<close>

definition digit_char :: "nat \<Rightarrow> char" where
  "digit_char d = ''0123456789'' ! d"

function str_nat :: "nat \<Rightarrow> string" where
  "str_nat n = (if n < 10 then [digit_char n] else str_nat (n div 10) @ [digit_char (n mod 10)])"
  by pat_completeness auto
termination
  by (relation "measure (\<lambda>n. n)") auto

definition str_int :: "int \<Rightarrow> string" where
  "str_int n = (if n < 0 then ''-'' @ str_nat (nat (- n)) else str_nat (nat n))"

text \<open>\<^verbatim>\<open>d.get(k, default)\<close> on a dictionary literal.\<close>

definition dict_get_default :: "('k \<times> 'v) list \<Rightarrow> 'k \<Rightarrow> 'v \<Rightarrow> 'v" where
  "dict_get_default d k dflt = (case map_of d k of Some v \<Rightarrow> v | None \<Rightarrow> dflt)"

definition ordinal :: "int \<Rightarrow> string" where
  "ordinal n =
     (let suffix =
        (if 10 \<le> n mod 100 \<and> n mod 100 \<le> 20 then ''th''
         else dict_get_default [(1, ''st''), (2, ''nd''), (3, ''rd'')] (n mod 10) ''th'')
      in str_int n @ suffix)"

definition validar_permutacao :: "string list \<Rightarrow> string \<Rightarrow> bool" where
  "validar_permutacao choices empty_marker =
     (if empty_marker \<in> set choices then False
      else length choices = card (set choices))"

subsection \<open>Round of 32 rules and bracket structure\<close>

definition ROUND32_FIXED :: "(string \<times> string \<times> string) list" where
  "ROUND32_FIXED =
    [(''M73'', (''2A'', ''2B'')),
     (''M75'', (''1F'', ''2C'')),
     (''M76'', (''1C'', ''2F'')),
     (''M78'', (''2E'', ''2I'')),
     (''M83'', (''2K'', ''2L'')),
     (''M84'', (''1H'', ''2J'')),
     (''M86'', (''1J'', ''2H'')),
     (''M88'', (''2D'', ''2G''))]"

text \<open>Each value: the seed code of the group winner, and the groups a third-placed
  opponent may come from.\<close>

definition ROUND32_THIRD_SLOTS :: "(string \<times> string \<times> string list) list" where
  "ROUND32_THIRD_SLOTS =
    [(''M74'', (''1E'', [''A'', ''B'', ''C'', ''D'', ''F''])),
     (''M77'', (''1I'', [''C'', ''D'', ''F'', ''G'', ''H''])),
     (''M79'', (''1A'', [''C'', ''E'', ''F'', ''H'', ''I''])),
     (''M80'', (''1L'', [''E'', ''H'', ''I'', ''J'', ''K''])),
     (''M81'', (''1D'', [''B'', ''E'', ''F'', ''I'', ''J''])),
     (''M82'', (''1G'', [''A'', ''E'', ''H'', ''I'', ''J''])),
     (''M85'', (''1B'', [''E'', ''F'', ''G'', ''I'', ''J''])),
     (''M87'', (''1K'', [''D'', ''E'', ''I'', ''J'', ''L'']))]"

type_synonym standings = "(string \<times> string list) list"

definition extrair_time :: "string \<Rightarrow> standings \<Rightarrow> py_error + string option" where
  "extrair_time code standings =
     (if length code \<noteq> 2 then Inr None
      else
        case list_index code 0 of Inl e \<Rightarrow> Inl e | Inr pos \<Rightarrow>
        case list_index code 1 of Inl e \<Rightarrow> Inl e | Inr grp \<Rightarrow>
        if map_of standings [grp] = None then Inr None
        else
          case dict_index standings [grp] of Inl e \<Rightarrow> Inl e | Inr ranking \<Rightarrow>
          if length ranking \<noteq> 4 then Inr None
          else
            case map_of [(''1'', 0), (''2'', 1), (''3'', 2), (''4'', 3)] [pos] of
              None \<Rightarrow> Inr None
            | Some idx \<Rightarrow>
                (case list_index ranking idx of Inl e \<Rightarrow> Inl e | Inr team \<Rightarrow> Inr (Some team)))"

definition ROUND16_MATCHES :: "(string \<times> string \<times> string) list" where
  "ROUND16_MATCHES =
    [(''M89'', (''M74'', ''M77'')),
     (''M90'', (''M73'', ''M75'')),
     (''M91'', (''M76'', ''M78'')),
     (''M92'', (''M79'', ''M80'')),
     (''M93'', (''M83'', ''M84'')),
     (''M94'', (''M81'', ''M82'')),
     (''M95'', (''M86'', ''M88'')),
     (''M96'', (''M85'', ''M87''))]"

definition QUARTERS_MATCHES :: "(string \<times> string \<times> string) list" where
  "QUARTERS_MATCHES =
    [(''M97'', (''M89'', ''M90'')),
     (''M98'', (''M93'', ''M94'')),
     (''M99'', (''M91'', ''M92'')),
     (''M100'', (''M95'', ''M96''))]"

definition SEMIS_MATCHES :: "(string \<times> string \<times> string) list" where
  "SEMIS_MATCHES =
    [(''M101'', (''M97'', ''M98'')),
     (''M102'', (''M99'', ''M100''))]"

definition order32 :: "string list" where
  "order32 =
    [''M73'', ''M74'', ''M75'', ''M76'',
     ''M77'', ''M78'', ''M79'', ''M80'',
     ''M81'', ''M82'', ''M83'', ''M84'',
     ''M85'', ''M86'', ''M87'', ''M88'']"

text \<open>The two source identifiers of every entry of a bracket table, in table order, and
  the edges "match \<open>m\<close> feeds match \<open>m'\<close>" of the three tables.\<close>

definition sources :: "(string \<times> string \<times> string) list \<Rightarrow> string list" where
  "sources tbl = concat (map (\<lambda>(mid, (m1, m2)). [m1, m2]) tbl)"

definition feeds :: "(string \<times> string) list" where
  "feeds = concat (map (\<lambda>(mid, (m1, m2)). [(m1, mid), (m2, mid)])
                     (ROUND16_MATCHES @ QUARTERS_MATCHES @ SEMIS_MATCHES))"

text \<open>The list index a position character stands for (specification side).\<close>

definition position_index :: "char \<Rightarrow> nat" where
  "position_index p =
     (if p = CHR ''1'' then 0 else if p = CHR ''2'' then 1 else if p = CHR ''3'' then 2 else 3)"

subsection \<open>The user interface\<close>

text \<open>
  The Streamlit widgets are the program's input; headers, captions and layout are display
  only and are left out. A widget is identified by its \<^verbatim>\<open>key\<close>, and each widget is
  modelled by the value it returns when the script runs: \<open>selectbox key options\<close> and
  \<open>radio key options\<close> give the selected entry, \<open>checkbox key\<close> gives the tick. The
  library returns an entry of the options it was given; that contract is \<open>widget_ok\<close>.
\<close>

type_synonym choice_widget = "string \<Rightarrow> string list \<Rightarrow> string"

definition widget_ok :: "choice_widget \<Rightarrow> bool" where
  "widget_ok w = (\<forall>key options. options \<noteq> [] \<longrightarrow> w key options \<in> set options)"

subsection \<open>Group stage\<close>

text \<open>The loop \<^verbatim>\<open>for i in range(4)\<close> of one group; \<open>pos_choices\<close> is its accumulator.\<close>

fun escolher_posicoes ::
  "choice_widget \<Rightarrow> string \<Rightarrow> string list \<Rightarrow> nat list \<Rightarrow> string list \<Rightarrow> string list" where
  "escolher_posicoes selectbox g teams [] pos_choices = pos_choices"
| "escolher_posicoes selectbox g teams (i # rest) pos_choices =
     (let pos_num = i + 1;
          already_chosen = filter (\<lambda>c. c \<noteq> ''-'') pos_choices;
          available_teams = filter (\<lambda>t. t \<notin> set already_chosen) teams;
          options = [''-''] @ available_teams;
          key = ''group_'' @ g @ ''_pos_'' @ str_int (int pos_num);
          choice = selectbox key options
      in escolher_posicoes selectbox g teams rest (pos_choices @ [choice]))"

declare escolher_posicoes.simps [simp del]

definition fill_group_error :: "string \<Rightarrow> string" where
  "fill_group_error g =
     ''Fill Group '' @ g @ '' correctly (no repetition and no empty fields).''"

text \<open>One iteration of the loop over \<open>GROUP_NAMES\<close>, for the group \<open>g\<close>; the state is
  the pair of \<open>standings\<close> and \<open>errors\<close>.\<close>

definition classificar_grupo ::
  "choice_widget \<Rightarrow> (string \<times> string list) list \<Rightarrow> string \<Rightarrow>
   standings \<times> string list \<Rightarrow> py_error + standings \<times> string list" where
  "classificar_grupo selectbox groups g state =
     (case state of (standings, errors) \<Rightarrow>
      case dict_index groups g of
        Inl e \<Rightarrow> Inl e
      | Inr teams \<Rightarrow>
          (let pos_choices = escolher_posicoes selectbox g teams [0, 1, 2, 3] [] in
           if validar_permutacao pos_choices ''-''
           then Inr (AList.update g pos_choices standings, errors)
           else Inr (AList.update g [] standings, errors @ [fill_group_error g])))"

definition montar_classificacao_grupos ::
  "choice_widget \<Rightarrow> (string \<times> string list) list \<Rightarrow> py_error + standings \<times> string list" where
  "montar_classificacao_grupos selectbox groups =
     for_each (classificar_grupo selectbox groups) GROUP_NAMES ([], [])"

subsection \<open>Third-placed teams\<close>

definition coletar_terceiros :: "standings \<Rightarrow> (string \<times> string) list" where
  "coletar_terceiros standings =
     map (\<lambda>(g, pos). (g, pos ! 2)) (filter (\<lambda>(g, pos). length pos = 4) standings)"

definition escolher_top8_terceiros_ui ::
  "(string \<Rightarrow> bool) \<Rightarrow> (string \<times> string) list \<Rightarrow> (string \<times> string) list \<times> string list" where
  "escolher_top8_terceiros_ui checkbox terceiros =
     (if length terceiros \<noteq> 12
      then ([], [''All 12 third-placed teams must be defined first.''])
      else
        let selected = filter (\<lambda>(g, team). checkbox (''third_'' @ g)) terceiros;
            errors =
              (if length selected \<noteq> 8
               then [''You must select exactly 8 third-placed teams (currently selected: ''
                     @ str_int (int (length selected)) @ '').'']
               else [])
        in (selected, errors))"

subsection \<open>Assignment of the third-placed teams\<close>

type_synonym assignment = "(string \<times> string \<times> string) list"

definition match_ids :: "string list" where
  "match_ids = map fst ROUND32_THIRD_SLOTS"

text \<open>
  The nested function \<^verbatim>\<open>backtrack\<close>. The set \<open>used_matches\<close> and the dictionary
  \<open>assignment\<close> are shared mutable objects in the source; here they are passed in and
  returned with the boolean result. \<open>try_matches\<close> is the loop \<^verbatim>\<open>for mid in match_ids\<close>
  for the pair \<open>(grp, team) = qualified[i]\<close>, on the match ids still to be tried.
\<close>

function backtrack ::
    "(string \<times> string) list \<Rightarrow> nat \<Rightarrow> string set \<Rightarrow> assignment \<Rightarrow>
     py_error + bool \<times> string set \<times> assignment"
  and try_matches ::
    "(string \<times> string) list \<Rightarrow> nat \<Rightarrow> string \<Rightarrow> string \<Rightarrow> string list \<Rightarrow>
     string set \<Rightarrow> assignment \<Rightarrow> py_error + bool \<times> string set \<times> assignment"
  where
  "backtrack qualified i used_matches assignment =
     (if i = length qualified then Inr (True, used_matches, assignment)
      else
        case list_index qualified i of
          Inl e \<Rightarrow> Inl e
        | Inr (grp, team) \<Rightarrow> try_matches qualified i grp team match_ids used_matches assignment)"
| "try_matches qualified i grp team [] used_matches assignment =
     Inr (False, used_matches, assignment)"
| "try_matches qualified i grp team (mid # rest) used_matches assignment =
     (if mid \<in> used_matches then try_matches qualified i grp team rest used_matches assignment
      else
        case dict_index ROUND32_THIRD_SLOTS mid of
          Inl e \<Rightarrow> Inl e
        | Inr (seed, allowed_groups) \<Rightarrow>
            if grp \<notin> set allowed_groups
            then try_matches qualified i grp team rest used_matches assignment
            else
              case backtrack qualified (i + 1) (insert mid used_matches)
                     (AList.update mid (grp, team) assignment) of
                Inl e \<Rightarrow> Inl e
              | Inr (True, used', assignment') \<Rightarrow> Inr (True, used', assignment')
              | Inr (False, used', assignment') \<Rightarrow>
                  if mid \<notin> used' then Inl KeyError
                  else if map_of assignment' mid = None then Inl KeyError
                  else try_matches qualified i grp team rest
                         (used' - {mid}) (AList.delete mid assignment'))"
  by pat_completeness auto
termination
  by (relation "measures
        [\<lambda>x. case x of Inl (q, i, u, a) \<Rightarrow> length q - i | Inr (q, i, g, t, ms, u, a) \<Rightarrow> length q - i,
         \<lambda>x. case x of Inl (q, i, u, a) \<Rightarrow> (if i < length q then 2 else 0) | Inr _ \<Rightarrow> 1,
         \<lambda>x. case x of Inl _ \<Rightarrow> 0 | Inr (q, i, g, t, ms, u, a) \<Rightarrow> length ms]")
     (auto simp: list_index_def split: if_splits)

declare backtrack.simps [simp del]

definition distribuir_terceiros_nos_jogos ::
  "(string \<times> string) list \<Rightarrow> py_error + assignment option \<times> string option" where
  "distribuir_terceiros_nos_jogos qualified =
     (if length qualified \<noteq> 8
      then Inr (None, Some ''Exactly 8 third-placed teams must be qualified.'')
      else
        case backtrack qualified 0 {} [] of
          Inl e \<Rightarrow> Inl e
        | Inr (found, used_matches, assignment) \<Rightarrow>
            if \<not> found
            then Inr (None,
                   Some ''Unable to assign the selected third-placed teams to the Round of 32.'')
            else Inr (Some assignment, None))"

subsection \<open>Specification of the assignment\<close>

text \<open>\<open>slot_allows mid grp\<close>: the third-place slot \<open>mid\<close> admits a team of group \<open>grp\<close>.\<close>

definition slot_allows :: "string \<Rightarrow> string \<Rightarrow> bool" where
  "slot_allows mid grp =
     (case map_of ROUND32_THIRD_SLOTS mid of
        Some (seed, allowed_groups) \<Rightarrow> grp \<in> set allowed_groups
      | None \<Rightarrow> False)"

text \<open>
  A matching of the qualified pairs is the list \<open>ms\<close> of the slots they get, in the order
  of the pairs: the \<open>k\<close>-th pair plays in slot \<open>ms ! k\<close>. It is valid when no slot is
  used twice, every entry is one of the third-place slots, and every pair's group is
  admitted by its slot.
\<close>

definition valid_matching :: "(string \<times> string) list \<Rightarrow> string list \<Rightarrow> bool" where
  "valid_matching qualified ms =
     (distinct ms \<and> set ms \<subseteq> set match_ids
      \<and> list_all2 (\<lambda>mid pair. slot_allows mid (fst pair)) ms qualified)"

text \<open>The position of a slot in the iteration order of \<open>ROUND32_THIRD_SLOTS\<close>.\<close>

definition slot_index :: "string \<Rightarrow> nat" where
  "slot_index mid = length (takeWhile (\<lambda>m. m \<noteq> mid) match_ids)"

text \<open>\<open>fits pairs used ms\<close>: \<open>ms\<close> places the remaining pairs in slots outside \<open>used\<close>.\<close>

fun fits :: "(string \<times> string) list \<Rightarrow> string set \<Rightarrow> string list \<Rightarrow> bool" where
  "fits [] used ms = (ms = [])"
| "fits (p # ps) used [] = False"
| "fits (p # ps) used (m # ms) =
     (m \<in> set match_ids \<and> m \<notin> used \<and> slot_allows m (fst p) \<and> fits ps (insert m used) ms)"

text \<open>What a call of \<open>backtrack\<close>, and of the loop inside it, returns.\<close>

definition backtrack_post ::
  "(string \<times> string) list \<Rightarrow> nat \<Rightarrow> string set \<Rightarrow> assignment \<Rightarrow>
   py_error + bool \<times> string set \<times> assignment \<Rightarrow> bool" where
  "backtrack_post q i used asg res =
     ((\<exists>ms. res = Inr (True, used \<union> set ms, asg @ zip ms (drop i q))
           \<and> fits (drop i q) used ms
           \<and> (\<forall>ms'. fits (drop i q) used ms' \<longrightarrow> map slot_index ms \<le> map slot_index ms'))
      \<or> (res = Inr (False, used, asg) \<and> (\<forall>ms. \<not> fits (drop i q) used ms)))"

definition try_post ::
  "(string \<times> string) list \<Rightarrow> nat \<Rightarrow> string list \<Rightarrow> string set \<Rightarrow> assignment \<Rightarrow>
   py_error + bool \<times> string set \<times> assignment \<Rightarrow> bool" where
  "try_post q i mids used asg res =
     ((\<exists>m ms. res = Inr (True, used \<union> set (m # ms), asg @ zip (m # ms) (drop i q))
           \<and> m \<in> set mids \<and> fits (drop i q) used (m # ms)
           \<and> (\<forall>m' ms'. m' \<in> set mids \<longrightarrow> fits (drop i q) used (m' # ms')
                 \<longrightarrow> map slot_index (m # ms) \<le> map slot_index (m' # ms')))
      \<or> (res = Inr (False, used, asg)
          \<and> (\<forall>m ms. m \<in> set mids \<longrightarrow> \<not> fits (drop i q) used (m # ms))))"

subsection \<open>Round of 32\<close>

text \<open>A game: the two teams (\<^verbatim>\<open>None\<close> while unresolved) and the textual description.\<close>

type_synonym jogo = "string option \<times> string option \<times> string"

type_synonym jogos = "(string \<times> jogo) list"

text \<open>The bodies of the two \<^verbatim>\<open>for\<close> statements of \<open>montar_round32\<close>, over the items of \<open>ROUND32_FIXED\<close>
  and of \<open>ROUND32_THIRD_SLOTS\<close>. Subscripting \<^verbatim>\<open>None\<close> raises \<^verbatim>\<open>TypeError\<close>.\<close>

definition jogo_fixo :: "standings \<Rightarrow> string \<times> string \<times> string \<Rightarrow> jogos \<Rightarrow> py_error + jogos" where
  "jogo_fixo standings item jogos =
     (case item of (mid, (code1, code2)) \<Rightarrow>
      case extrair_time code1 standings of Inl e \<Rightarrow> Inl e | Inr t1 \<Rightarrow>
      case extrair_time code2 standings of Inl e \<Rightarrow> Inl e | Inr t2 \<Rightarrow>
      Inr (AList.update mid (t1, t2, code1 @ '' vs '' @ code2) jogos))"

definition jogo_terceiro ::
  "standings \<Rightarrow> assignment option \<Rightarrow> string \<times> string \<times> string list \<Rightarrow> jogos \<Rightarrow>
   py_error + jogos" where
  "jogo_terceiro standings jogos_terceiros item jogos =
     (case item of (mid, (code1, allowed_groups)) \<Rightarrow>
      case extrair_time code1 standings of Inl e \<Rightarrow> Inl e | Inr t1 \<Rightarrow>
      case jogos_terceiros of None \<Rightarrow> Inl TypeError | Some assignment \<Rightarrow>
      case dict_index assignment mid of Inl e \<Rightarrow> Inl e | Inr (group_3, team_3) \<Rightarrow>
      (let code2 = ''3'' @ group_3
       in Inr (AList.update mid (t1, Some team_3, code1 @ '' vs '' @ code2) jogos)))"

definition montar_round32 ::
  "standings \<Rightarrow> (string \<times> string) list \<Rightarrow> py_error + jogos \<times> string option" where
  "montar_round32 standings qualified_thirds =
     (case distribuir_terceiros_nos_jogos qualified_thirds of
        Inl e \<Rightarrow> Inl e
      | Inr (jogos_terceiros, err) \<Rightarrow>
          if truthy err then Inr ([], err)
          else
            case for_each (jogo_fixo standings) ROUND32_FIXED [] of
              Inl e \<Rightarrow> Inl e
            | Inr jogos \<Rightarrow>
                (case for_each (jogo_terceiro standings jogos_terceiros)
                        ROUND32_THIRD_SLOTS jogos of
                   Inl e \<Rightarrow> Inl e
                 | Inr jogos' \<Rightarrow> Inr (jogos', None)))"

subsection \<open>Choosing winners\<close>

definition escolher_vencedor_ui ::
  "choice_widget \<Rightarrow> string \<Rightarrow> string option \<Rightarrow> string option \<Rightarrow> string option" where
  "escolher_vencedor_ui radio match_id t1 t2 =
     (if \<not> truthy t1 \<or> \<not> truthy t2 then None
      else
        case (t1, t2) of
          (Some team1, Some team2) \<Rightarrow> Some (radio (''winner_'' @ match_id) [team1, team2])
        | _ \<Rightarrow> None)"

type_synonym winners = "(string \<times> string option) list"

text \<open>The loop over \<open>order32\<close>: \<^verbatim>\<open>jogos_r32[mid]\<close> raises for a missing match.\<close>

definition round32_winners :: "choice_widget \<Rightarrow> jogos \<Rightarrow> py_error + winners" where
  "round32_winners radio jogos_r32 =
     for_each
       (\<lambda>mid winners32.
          case dict_index jogos_r32 mid of
            Inl e \<Rightarrow> Inl e
          | Inr (t1, t2, desc) \<Rightarrow>
              Inr (AList.update mid (escolher_vencedor_ui radio mid t1 t2) winners32))
       order32 []"

text \<open>The round of 16, the quarterfinals and the semifinals are computed by one and the
  same \<^verbatim>\<open>for\<close> statement:
  over the items of the round's table, reading the winners of the round before.\<close>

definition round_winners ::
  "choice_widget \<Rightarrow> (string \<times> string \<times> string) list \<Rightarrow> winners \<Rightarrow> winners" where
  "round_winners radio matches previous =
     fold
       (\<lambda>(mid, (m1, m2)) winners.
          let t1 = dict_get previous m1; t2 = dict_get previous m2
          in AList.update mid (escolher_vencedor_ui radio mid t1 t2) winners)
       matches []"

subsection \<open>Third place match and final\<close>

text \<open>What the third-place column shows: the waiting notice, or the two losers of the
  semifinals with the winner chosen between them.\<close>

datatype third_place =
  Waiting_for_semifinals
| Third_place_match "string option" "string option" "string option"

definition third_place_block ::
  "choice_widget \<Rightarrow> winners \<Rightarrow> winners \<Rightarrow> py_error + third_place" where
  "third_place_block radio winnersQ winnersS =
     (case dict_index SEMIS_MATCHES ''M101'' of Inl e \<Rightarrow> Inl e | Inr (sf1_m1, sf1_m2) \<Rightarrow>
      let sf1_t1 = dict_get winnersQ sf1_m1;
          sf1_t2 = dict_get winnersQ sf1_m2;
          sf1_winner = dict_get winnersS ''M101''
      in
      case dict_index SEMIS_MATCHES ''M102'' of Inl e \<Rightarrow> Inl e | Inr (sf2_m1, sf2_m2) \<Rightarrow>
      let sf2_t1 = dict_get winnersQ sf2_m1;
          sf2_t2 = dict_get winnersQ sf2_m2;
          sf2_winner = dict_get winnersS ''M102''
      in
      if list_all truthy [sf1_t1, sf1_t2, sf1_winner, sf2_t1, sf2_t2, sf2_winner]
      then
        let sf1_loser = (if sf1_winner = sf1_t1 then sf1_t2 else sf1_t1);
            sf2_loser = (if sf2_winner = sf2_t1 then sf2_t2 else sf2_t1);
            third_place_winner =
              escolher_vencedor_ui radio ''M103 (Third Place)'' sf1_loser sf2_loser
        in Inr (Third_place_match sf1_loser sf2_loser third_place_winner)
      else Inr Waiting_for_semifinals)"

definition final_block :: "choice_widget \<Rightarrow> winners \<Rightarrow> string option" where
  "final_block radio winnersS =
     (let tf1 = dict_get winnersS ''M101'';
          tf2 = dict_get winnersS ''M102''
      in escolher_vencedor_ui radio ''M104 (Final)'' tf1 tf2)"

subsection \<open>The page\<close>

record bracket =
  winners32 :: winners
  winners16 :: winners
  winnersQ :: winners
  winnersS :: winners
  third :: third_place
  champion :: "string option"

definition knockout :: "choice_widget \<Rightarrow> jogos \<Rightarrow> py_error + bracket" where
  "knockout radio jogos_r32 =
     (case round32_winners radio jogos_r32 of
        Inl e \<Rightarrow> Inl e
      | Inr w32 \<Rightarrow>
          let w16 = round_winners radio ROUND16_MATCHES w32;
              wQ = round_winners radio QUARTERS_MATCHES w16;
              wS = round_winners radio SEMIS_MATCHES wQ
          in
          case third_place_block radio wQ wS of
            Inl e \<Rightarrow> Inl e
          | Inr tp \<Rightarrow>
              Inr \<lparr>winners32 = w32, winners16 = w16, winnersQ = wQ, winnersS = wS,
                   third = tp, champion = final_block radio wS\<rparr>)"

text \<open>A run of the script: it stops (\<^verbatim>\<open>st.stop()\<close>) after showing the errors of a stage,
  or shows the knockout bracket.\<close>

datatype page =
  Group_errors "string list"
| Third_errors "string list"
| Round32_error "string option"
| Knockout bracket

definition app :: "choice_widget \<Rightarrow> (string \<Rightarrow> bool) \<Rightarrow> choice_widget \<Rightarrow> py_error + page" where
  "app selectbox checkbox radio =
     (case montar_classificacao_grupos selectbox INITIAL_GROUPS of
        Inl e \<Rightarrow> Inl e
      | Inr (standings, errors_groups) \<Rightarrow>
          if errors_groups \<noteq> [] then Inr (Group_errors errors_groups)
          else
            let thirds = coletar_terceiros standings;
                (qualified_thirds, errors_thirds) = escolher_top8_terceiros_ui checkbox thirds
            in
            if errors_thirds \<noteq> [] then Inr (Third_errors errors_thirds)
            else
              case montar_round32 standings qualified_thirds of
                Inl e \<Rightarrow> Inl e
              | Inr (jogos_r32, err) \<Rightarrow>
                  if truthy err then Inr (Round32_error err)
                  else
                    case knockout radio jogos_r32 of
                      Inl e \<Rightarrow> Inl e
                    | Inr b \<Rightarrow> Inr (Knockout b))"

subsection \<open>The bracket as a list of matches\<close>

text \<open>The knockout matches a winner can be chosen for, in page order.\<close>

definition knockout_match_ids :: "string list" where
  "knockout_match_ids =
     order32 @ map fst ROUND16_MATCHES @ map fst QUARTERS_MATCHES @ map fst SEMIS_MATCHES
     @ [''M103 (Third Place)'', ''M104 (Final)'']"

text \<open>The winner entries of a bracket: match id and the winner chosen, if any.\<close>

definition winner_entries :: "bracket \<Rightarrow> winners" where
  "winner_entries b =
     winners32 b @ winners16 b @ winnersQ b @ winnersS b
     @ [(''M103 (Third Place)'',
         case third b of Waiting_for_semifinals \<Rightarrow> None | Third_place_match l1 l2 w \<Rightarrow> w),
        (''M104 (Final)'', champion b)]"

text \<open>Every match on the page with its two participants and its winner entry. The
  third-place match has participants only once the semifinals are decided.\<close>

definition match_rows ::
  "jogos \<Rightarrow> bracket \<Rightarrow> (string \<times> string option \<times> string option \<times> string option) list" where
  "match_rows jogos_r32 b =
     map (\<lambda>mid. case map_of jogos_r32 mid of
                  Some (t1, t2, desc) \<Rightarrow> (mid, t1, t2, dict_get (winners32 b) mid)
                | None \<Rightarrow> (mid, None, None, dict_get (winners32 b) mid)) order32
     @ map (\<lambda>(mid, (m1, m2)).
              (mid, dict_get (winners32 b) m1, dict_get (winners32 b) m2,
               dict_get (winners16 b) mid)) ROUND16_MATCHES
     @ map (\<lambda>(mid, (m1, m2)).
              (mid, dict_get (winners16 b) m1, dict_get (winners16 b) m2,
               dict_get (winnersQ b) mid)) QUARTERS_MATCHES
     @ map (\<lambda>(mid, (m1, m2)).
              (mid, dict_get (winnersQ b) m1, dict_get (winnersQ b) m2,
               dict_get (winnersS b) mid)) SEMIS_MATCHES
     @ (case third b of
          Waiting_for_semifinals \<Rightarrow> [(''M103 (Third Place)'', None, None, None)]
        | Third_place_match l1 l2 w \<Rightarrow> [(''M103 (Third Place)'', l1, l2, w)])
     @ [(''M104 (Final)'', dict_get (winnersS b) ''M101'', dict_get (winnersS b) ''M102'',
         champion b)]"

section \<open>Properties\<close>

subsection \<open>Utilities\<close>

lemma str_nat_digit: "n < 10 \<Longrightarrow> str_nat n = [digit_char n]"
  by simp

lemma str_nat_step: "10 \<le> n \<Longrightarrow> str_nat n = str_nat (n div 10) @ [digit_char (n mod 10)]"
  by (subst str_nat.simps) simp

lemmas str_eval = str_int_def str_nat_digit str_nat_step digit_char_def

lemma ordinal_suffix:
  "ordinal n = str_int n @
     (if 10 \<le> n mod 100 \<and> n mod 100 \<le> 20 then ''th''
      else if n mod 10 = 1 then ''st''
      else if n mod 10 = 2 then ''nd''
      else if n mod 10 = 3 then ''rd''
      else ''th'')"
  by (simp add: ordinal_def dict_get_default_def)

text \<open>
  C7. \<open>ordinal n\<close> is defined for every integer \<open>n\<close> and is the decimal rendering of
  \<open>n\<close> followed by \<open>th\<close> when \<open>n mod 100\<close> lies in \<open>[10, 20]\<close>, else by \<open>st\<close>, \<open>nd\<close>,
  \<open>rd\<close> when \<open>n mod 10\<close> is 1, 2, 3, else by \<open>th\<close>; it gives 1st, 2nd, 3rd, 4th,
  11th, 12th, 13th, 21st, 22nd, 23rd on the listed inputs.
\<close>

theorem ordinal_spec:
  "ordinal n = str_int n @
     (if 10 \<le> n mod 100 \<and> n mod 100 \<le> 20 then ''th''
      else if n mod 10 = 1 then ''st''
      else if n mod 10 = 2 then ''nd''
      else if n mod 10 = 3 then ''rd''
      else ''th'')
   \<and> map ordinal [1, 2, 3, 4] = [''1st'', ''2nd'', ''3rd'', ''4th'']
   \<and> map ordinal [11, 12, 13] = [''11th'', ''12th'', ''13th'']
   \<and> map ordinal [21, 22, 23] = [''21st'', ''22nd'', ''23rd'']"
proof -
  have small: "map ordinal [1, 2, 3, 4] = [''1st'', ''2nd'', ''3rd'', ''4th'']"
    by (simp add: ordinal_suffix str_eval)
  have teens: "map ordinal [11, 12, 13] = [''11th'', ''12th'', ''13th'']"
    by (simp add: ordinal_suffix str_eval)
  have twenties: "map ordinal [21, 22, 23] = [''21st'', ''22nd'', ''23rd'']"
    by (simp add: ordinal_suffix str_eval)
  from small teens twenties show ?thesis
    using ordinal_suffix [of n] by blast
qed

lemma validar_permutacao_distinct:
  "validar_permutacao choices empty_marker \<longleftrightarrow>
     empty_marker \<notin> set choices \<and> distinct choices"
  by (auto simp: validar_permutacao_def distinct_card intro: card_distinct [OF sym])

text \<open>
  C8. \<open>validar_permutacao choices empty_marker\<close> holds exactly when no entry of \<open>choices\<close> is
  the empty marker and the entries are pairwise distinct.
\<close>

theorem validar_permutacao_iff:
  "validar_permutacao choices empty_marker \<longleftrightarrow>
     empty_marker \<notin> set choices \<and> distinct choices"
  by (rule validar_permutacao_distinct)

subsection \<open>Seed codes\<close>

lemma extrair_time_cases:
  "extrair_time code standings =
     (case code of
        [p, g] \<Rightarrow>
          (case map_of standings [g] of
             None \<Rightarrow> Inr None
           | Some r \<Rightarrow>
               if length r = 4 \<and> p \<in> set ''1234'' then Inr (Some (r ! position_index p))
               else Inr None)
      | _ \<Rightarrow> Inr None)"
proof (cases code)
  case Nil
  then show ?thesis by (simp add: extrair_time_def)
next
  case (Cons p rest)
  note c1 = this
  show ?thesis
  proof (cases rest)
    case Nil
    with c1 show ?thesis by (simp add: extrair_time_def)
  next
    case (Cons g rest')
    show ?thesis
    proof (cases rest')
      case Nil
      with c1 Cons show ?thesis
        by (auto simp: extrair_time_def list_index_def dict_index_def position_index_def
            split: option.splits)
    next
      case (Cons x xs)
      with c1 \<open>rest = g # rest'\<close> show ?thesis by (simp add: extrair_time_def)
    qed
  qed
qed

text \<open>
  C3, as the code has it. \<open>extrair_time\<close> never raises. It returns \<open>None\<close> exactly when
  the code is not 2 characters long, the group letter is not a key of the standings, the
  position character is not one of 1, 2, 3, 4, or the group's standing does not have
  exactly 4 entries (whether or not they are distinct and non-empty); otherwise it returns
  the team stored at the coded position. With Group A ranked Mexico, South Africa,
  South Korea, UEFA D, the code 2A gives South Africa, and 5A and 2Z give \<open>None\<close>.
\<close>

theorem extrair_time_spec:
  "(extrair_time code standings = Inr None \<longleftrightarrow>
      (length code \<noteq> 2 \<or> map_of standings [code ! 1] = None \<or> code ! 0 \<notin> set ''1234''
       \<or> (\<exists>r. map_of standings [code ! 1] = Some r \<and> length r \<noteq> 4)))
   \<and> (\<forall>p g r. code = [p, g] \<and> map_of standings [g] = Some r \<and> length r = 4 \<and> p \<in> set ''1234''
         \<longrightarrow> extrair_time code standings = Inr (Some (r ! position_index p)))
   \<and> (\<exists>res. extrair_time code standings = Inr res)
   \<and> extrair_time ''2A'' [(''A'', [''Mexico'', ''South Africa'', ''South Korea'', ''UEFA D''])]
       = Inr (Some ''South Africa'')
   \<and> extrair_time ''5A'' [(''A'', [''Mexico'', ''South Africa'', ''South Korea'', ''UEFA D''])]
       = Inr None
   \<and> extrair_time ''2Z'' [(''A'', [''Mexico'', ''South Africa'', ''South Korea'', ''UEFA D''])]
       = Inr None"
proof (intro conjI)
  show "\<exists>res. extrair_time code standings = Inr res"
    by (simp add: extrair_time_cases split: list.splits option.splits)
  show "\<forall>p g r. code = [p, g] \<and> map_of standings [g] = Some r \<and> length r = 4 \<and> p \<in> set ''1234''
         \<longrightarrow> extrair_time code standings = Inr (Some (r ! position_index p))"
    by (simp add: extrair_time_cases)
  show "extrair_time code standings = Inr None \<longleftrightarrow>
      (length code \<noteq> 2 \<or> map_of standings [code ! 1] = None \<or> code ! 0 \<notin> set ''1234''
       \<or> (\<exists>r. map_of standings [code ! 1] = Some r \<and> length r \<noteq> 4))"
    by (auto simp add: extrair_time_cases split: list.splits option.splits)
qed (simp_all add: extrair_time_cases position_index_def)

theorem extrair_time_spec_witness:
  "extrair_time ''3C'' [(''C'', [''Brazil'', ''Morrocco'', ''Haiti'', ''Scotland''])]
     = Inr (Some ''Haiti'')
   \<and> extrair_time ''3C'' [(''C'', [''Brazil'', ''Morrocco'', ''Haiti'', ''Scotland''])]
     \<noteq> Inr None"
  using extrair_time_spec [of "''3C''" "[(''C'', [''Brazil'', ''Morrocco'', ''Haiti'', ''Scotland''])]"]
  by (simp add: position_index_def)

text \<open>
  The claim as the specification words it fails: a standing of 4 entries that repeats a
  team and holds the empty marker is not complete, and its seed codes still resolve.
\<close>

theorem extrair_time_incomplete_counterexample:
  "extrair_time ''1A'' [(''A'', [''Mexico'', ''Mexico'', ''-'', ''South Korea''])]
     = Inr (Some ''Mexico'')
   \<and> \<not> validar_permutacao [''Mexico'', ''Mexico'', ''-'', ''South Korea''] ''-''
   \<and> \<not> distinct [''Mexico'', ''Mexico'', ''-'', ''South Korea'']"
  by (simp add: extrair_time_cases position_index_def validar_permutacao_def)

subsection \<open>The static bracket tables\<close>

lemma feeds_acyclic: "acyclic (set feeds)"
proof -
  define rk :: "string \<Rightarrow> nat" where
    "rk = (\<lambda>m. if m \<in> set order32 then 0
               else if m \<in> set (map fst ROUND16_MATCHES) then 1
               else if m \<in> set (map fst QUARTERS_MATCHES) then 2 else 3)"
  have "set feeds \<subseteq> inv_image less_than rk"
    by (simp add: feeds_def rk_def order32_def ROUND16_MATCHES_def QUARTERS_MATCHES_def
        SEMIS_MATCHES_def)
  moreover have "wf (inv_image less_than rk)" by simp
  ultimately have "wf (set feeds)" by (rule wf_subset [rotated])
  then show ?thesis by (rule wf_acyclic)
qed

text \<open>
  C10. The 16 sources of \<open>ROUND16_MATCHES\<close> are the 16 round-of-32 match ids (the keys of
  \<open>ROUND32_FIXED\<close> and \<open>ROUND32_THIRD_SLOTS\<close>, which are the entries of \<open>order32\<close>), each
  once; the 8 sources of \<open>QUARTERS_MATCHES\<close> are the 8 round-of-16 ids, each once; the 4
  sources of \<open>SEMIS_MATCHES\<close> are the 4 quarterfinal ids, each once. So every match of
  these rounds feeds exactly one later match, and the dependency graph has no cycle.
\<close>

theorem bracket_tables_tree:
  "length (sources ROUND16_MATCHES) = 16
   \<and> distinct (sources ROUND16_MATCHES)
   \<and> set (sources ROUND16_MATCHES) = set (map fst ROUND32_FIXED @ map fst ROUND32_THIRD_SLOTS)
   \<and> distinct (map fst ROUND32_FIXED @ map fst ROUND32_THIRD_SLOTS)
   \<and> set (map fst ROUND32_FIXED @ map fst ROUND32_THIRD_SLOTS) = set order32
   \<and> length (sources QUARTERS_MATCHES) = 8
   \<and> distinct (sources QUARTERS_MATCHES)
   \<and> set (sources QUARTERS_MATCHES) = set (map fst ROUND16_MATCHES)
   \<and> distinct (map fst ROUND16_MATCHES)
   \<and> length (sources SEMIS_MATCHES) = 4
   \<and> distinct (sources SEMIS_MATCHES)
   \<and> set (sources SEMIS_MATCHES) = set (map fst QUARTERS_MATCHES)
   \<and> distinct (map fst QUARTERS_MATCHES)
   \<and> distinct (map fst feeds)
   \<and> set (map fst feeds) = set (order32 @ map fst ROUND16_MATCHES @ map fst QUARTERS_MATCHES)
   \<and> acyclic (set feeds)"
proof -
  have r16: "length (sources ROUND16_MATCHES) = 16 \<and> distinct (sources ROUND16_MATCHES)
      \<and> set (sources ROUND16_MATCHES) = set (map fst ROUND32_FIXED @ map fst ROUND32_THIRD_SLOTS)"
    by code_simp
  have r32: "distinct (map fst ROUND32_FIXED @ map fst ROUND32_THIRD_SLOTS)
      \<and> set (map fst ROUND32_FIXED @ map fst ROUND32_THIRD_SLOTS) = set order32"
    by code_simp
  have qf: "length (sources QUARTERS_MATCHES) = 8 \<and> distinct (sources QUARTERS_MATCHES)
      \<and> set (sources QUARTERS_MATCHES) = set (map fst ROUND16_MATCHES)
      \<and> distinct (map fst ROUND16_MATCHES)"
    by code_simp
  have sf: "length (sources SEMIS_MATCHES) = 4 \<and> distinct (sources SEMIS_MATCHES)
      \<and> set (sources SEMIS_MATCHES) = set (map fst QUARTERS_MATCHES)
      \<and> distinct (map fst QUARTERS_MATCHES)"
    by code_simp
  have fd: "distinct (map fst feeds)
      \<and> set (map fst feeds) = set (order32 @ map fst ROUND16_MATCHES @ map fst QUARTERS_MATCHES)"
    by code_simp
  from r16 r32 qf sf fd feeds_acyclic show ?thesis by blast
qed

subsection \<open>The assignment engine\<close>

lemma fits_iff:
  "fits ps used ms \<longleftrightarrow>
     distinct ms \<and> set ms \<subseteq> set match_ids - used
     \<and> list_all2 (\<lambda>mid pair. slot_allows mid (fst pair)) ms ps"
  by (induction ps used ms rule: fits.induct) auto

lemma fits_valid_matching: "fits q {} ms \<longleftrightarrow> valid_matching q ms"
  by (simp add: fits_iff valid_matching_def)

lemma match_ids_distinct: "distinct match_ids"
  by (simp add: match_ids_def ROUND32_THIRD_SLOTS_def)

lemma slot_lookup:
  assumes "mid \<in> set match_ids"
  shows "\<exists>seed al. dict_index ROUND32_THIRD_SLOTS mid = Inr (seed, al)
           \<and> (\<forall>g. slot_allows mid g \<longleftrightarrow> g \<in> set al)"
proof -
  from assms have "map_of ROUND32_THIRD_SLOTS mid \<noteq> None"
    unfolding match_ids_def by (simp add: map_of_eq_None_iff)
  then obtain seed al where "map_of ROUND32_THIRD_SLOTS mid = Some (seed, al)"
    by (cases "map_of ROUND32_THIRD_SLOTS mid") auto
  then show ?thesis by (simp add: dict_index_def slot_allows_def)
qed

lemma slot_index_split:
  assumes "match_ids = pre @ mid # rest"
  shows "slot_index mid = length pre" and "m \<in> set rest \<Longrightarrow> length pre < slot_index m"
proof -
  from assms match_ids_distinct have d: "distinct (pre @ mid # rest)" by simp
  then have "\<forall>x\<in>set pre. x \<noteq> mid" by auto
  then show "slot_index mid = length pre"
    by (simp add: slot_index_def assms takeWhile_append2)
  assume m: "m \<in> set rest"
  with d have "\<forall>x\<in>set pre. x \<noteq> m" and "mid \<noteq> m" by auto
  then show "length pre < slot_index m"
    by (simp add: slot_index_def assms takeWhile_append2)
qed

lemma update_fresh: "k \<notin> fst ` set al \<Longrightarrow> AList.update k v al = al @ [(k, v)]"
  by (induction al) auto

lemma delete_fresh: "k \<notin> fst ` set al \<Longrightarrow> AList.delete k (al @ [(k, v)]) = al"
  by (induction al) (auto simp: AList.delete_eq)

lemma drop_pair: "i < length q \<Longrightarrow> q ! i = p \<Longrightarrow> drop i q = p # drop (Suc i) q"
  using Cons_nth_drop_Suc [of i q] by simp

lemma try_post_Nil: "try_post q i [] used asg (Inr (False, used, asg))"
  by (simp add: try_post_def)

lemma try_post_skip:
  assumes no: "\<And>ms. \<not> fits (drop i q) used (mid # ms)"
    and post: "try_post q i rest used asg res"
  shows "try_post q i (mid # rest) used asg res"
proof -
  from post consider
    (found) m ms where "res = Inr (True, used \<union> set (m # ms), asg @ zip (m # ms) (drop i q))"
      "m \<in> set rest" "fits (drop i q) used (m # ms)"
      "\<And>m' ms'. m' \<in> set rest \<Longrightarrow> fits (drop i q) used (m' # ms')
          \<Longrightarrow> map slot_index (m # ms) \<le> map slot_index (m' # ms')"
  | (none) "res = Inr (False, used, asg)"
      "\<And>m ms. m \<in> set rest \<Longrightarrow> \<not> fits (drop i q) used (m # ms)"
    unfolding try_post_def by blast
  then show ?thesis
  proof cases
    case found
    have least: "map slot_index (m # ms) \<le> map slot_index (m' # ms')"
      if "m' \<in> set (mid # rest)" "fits (drop i q) used (m' # ms')" for m' ms'
    proof (cases "m' = mid")
      case True
      with that no show ?thesis by blast
    next
      case False
      with that have "m' \<in> set rest" by simp
      with that found(4) show ?thesis by blast
    qed
    have "m \<in> set (mid # rest)" using found(2) by simp
    with found(1,3) least show ?thesis
      unfolding try_post_def by blast
  next
    case none
    have "\<not> fits (drop i q) used (m # ms)" if "m \<in> set (mid # rest)" for m ms
      using that no none(2) by (cases "m = mid") auto
    with none(1) show ?thesis unfolding try_post_def by blast
  qed
qed

lemma try_post_found:
  assumes i: "i < length q" and qi: "q ! i = (g, t)"
    and split: "match_ids = pre @ mid # rest"
    and fresh: "mid \<notin> used" and ok: "slot_allows mid g"
    and keys: "fst ` set asg \<subseteq> used"
    and post: "backtrack_post q (Suc i) (insert mid used) (AList.update mid (g, t) asg)
                (Inr (True, u, a))"
  shows "try_post q i (mid # rest) used asg (Inr (True, u, a))"
proof -
  from i qi have dr: "drop i q = (g, t) # drop (Suc i) q" by (rule drop_pair)
  from keys fresh have upd: "AList.update mid (g, t) asg = asg @ [(mid, (g, t))]"
    by (intro update_fresh) auto
  from post obtain ms where
    u: "u = insert mid used \<union> set ms"
    and a: "a = AList.update mid (g, t) asg @ zip ms (drop (Suc i) q)"
    and f: "fits (drop (Suc i) q) (insert mid used) ms"
    and least: "\<And>ms'. fits (drop (Suc i) q) (insert mid used) ms'
                  \<Longrightarrow> map slot_index ms \<le> map slot_index ms'"
    unfolding backtrack_post_def by auto
  have mid_in: "mid \<in> set match_ids" unfolding split by simp
  have 1: "Inr (True, u, a) = Inr (True, used \<union> set (mid # ms), asg @ zip (mid # ms) (drop i q))"
    using u a upd dr by simp
  have 2: "fits (drop i q) used (mid # ms)"
    using dr f fresh ok mid_in by simp
  have 3: "map slot_index (mid # ms) \<le> map slot_index (m' # ms')"
    if m': "m' \<in> set (mid # rest)" and f': "fits (drop i q) used (m' # ms')" for m' ms'
  proof (cases "m' = mid")
    case True
    with f' dr have "fits (drop (Suc i) q) (insert mid used) ms'" by simp
    then have "map slot_index ms \<le> map slot_index ms'" by (rule least)
    with True show ?thesis by simp
  next
    case False
    with m' have "m' \<in> set rest" by simp
    with slot_index_split [OF split] have "slot_index mid < slot_index m'" by simp
    then show ?thesis by simp
  qed
  show ?thesis unfolding try_post_def
  proof (intro disjI1 exI conjI allI impI)
    show "Inr (True, u, a)
        = Inr (True, used \<union> set (mid # ms), asg @ zip (mid # ms) (drop i q))"
      by (rule 1)
    show "mid \<in> set (mid # rest)" by simp
    show "fits (drop i q) used (mid # ms)" by (rule 2)
    fix m' ms'
    assume "m' \<in> set (mid # rest)" and "fits (drop i q) used (m' # ms')"
    then show "map slot_index (mid # ms) \<le> map slot_index (m' # ms')" by (rule 3)
  qed
qed

lemma try_post_undo:
  assumes i: "i < length q" and qi: "q ! i = (g, t)"
    and fresh: "mid \<notin> used" and keys: "fst ` set asg \<subseteq> used"
    and post: "backtrack_post q (Suc i) (insert mid used) (AList.update mid (g, t) asg)
                (Inr (False, u, a))"
  shows "mid \<in> u" and "map_of a mid \<noteq> None" and "u - {mid} = used"
    and "AList.delete mid a = asg" and "\<not> fits (drop i q) used (mid # ms)"
proof -
  from i qi have dr: "drop i q = (g, t) # drop (Suc i) q" by (rule drop_pair)
  from keys fresh have k: "mid \<notin> fst ` set asg" by auto
  then have upd: "AList.update mid (g, t) asg = asg @ [(mid, (g, t))]"
    by (rule update_fresh)
  from post have u: "u = insert mid used" and a: "a = AList.update mid (g, t) asg"
    and no: "\<And>ms. \<not> fits (drop (Suc i) q) (insert mid used) ms"
    unfolding backtrack_post_def by auto
  show "mid \<in> u" using u by simp
  show "map_of a mid \<noteq> None" using a by (simp add: update_conv')
  show "u - {mid} = used" using u fresh by auto
  show "AList.delete mid a = asg" using a upd k by (simp add: delete_fresh)
  show "\<not> fits (drop i q) used (mid # ms)" using dr no by simp
qed

lemma backtrack_post_of_try:
  assumes i: "i < length q"
    and post: "try_post q i match_ids used asg res"
  shows "backtrack_post q i used asg res"
proof -
  from i obtain p ps where dr: "drop i q = p # ps"
    by (metis Cons_nth_drop_Suc)
  have shape: "\<exists>m' ms''. ms' = m' # ms'' \<and> m' \<in> set match_ids" if "fits (drop i q) used ms'" for ms'
    using that dr by (cases ms') auto
  from post consider
    (found) m ms where "res = Inr (True, used \<union> set (m # ms), asg @ zip (m # ms) (drop i q))"
      "fits (drop i q) used (m # ms)"
      "\<And>m' ms'. m' \<in> set match_ids \<Longrightarrow> fits (drop i q) used (m' # ms')
          \<Longrightarrow> map slot_index (m # ms) \<le> map slot_index (m' # ms')"
  | (none) "res = Inr (False, used, asg)"
      "\<And>m ms. m \<in> set match_ids \<Longrightarrow> \<not> fits (drop i q) used (m # ms)"
    unfolding try_post_def by blast
  then show ?thesis
  proof cases
    case found
    have "map slot_index (m # ms) \<le> map slot_index ms'" if "fits (drop i q) used ms'" for ms'
      using shape [OF that] that found(3) by blast
    with found(1,2) show ?thesis unfolding backtrack_post_def by blast
  next
    case none
    have "\<not> fits (drop i q) used ms'" for ms'
      using shape [of ms'] none(2) by blast
    with none(1) show ?thesis unfolding backtrack_post_def by blast
  qed
qed

lemma backtrack_post_done:
  "backtrack_post q (length q) used asg (Inr (True, used, asg))"
  unfolding backtrack_post_def by (intro disjI1 exI [of _ "[]"]) simp


lemma update_keys_subset:
  "fst ` set asg \<subseteq> used \<Longrightarrow> fst ` set (AList.update mid v asg) \<subseteq> insert mid used"
proof -
  assume "fst ` set asg \<subseteq> used"
  moreover have "set (map fst (AList.update mid v asg)) = insert mid (set (map fst asg))"
    by (auto simp: update_keys)
  ultimately show ?thesis by auto
qed

lemma fits_head:
  "i < length q \<Longrightarrow> q ! i = (g, t) \<Longrightarrow>
   fits (drop i q) used (m # ms) \<Longrightarrow> m \<notin> used \<and> slot_allows m g"
  by (simp add: drop_pair)

lemma backtrack_try_matches_post:
  "i \<le> length q \<Longrightarrow> fst ` set asg \<subseteq> used \<Longrightarrow>
     backtrack_post q i used asg (backtrack q i used asg)"
  "i < length q \<Longrightarrow> q ! i = (g, t) \<Longrightarrow> \<exists>pre. match_ids = pre @ mids \<Longrightarrow>
   fst ` set asg \<subseteq> used \<Longrightarrow>
     try_post q i mids used asg (try_matches q i g t mids used asg)"
proof (induction q i used asg and q i g t mids used asg rule: backtrack_try_matches.induct)
  case (1 q i used asg)
  show ?case
  proof (cases "i = length q")
    case True
    then show ?thesis using backtrack_post_done by (simp add: backtrack.simps)
  next
    case False
    with "1.prems" have lt: "i < length q" by simp
    obtain g t where qi: "q ! i = (g, t)" by (cases "q ! i")
    from lt qi have li: "list_index q i = Inr (g, t)" by (simp add: list_index_def)
    have eq: "backtrack q i used asg = try_matches q i g t match_ids used asg"
      using False li by (simp add: backtrack.simps)
    have "\<exists>pre. match_ids = pre @ match_ids" by (rule exI [of _ "[]"]) simp
    with False li lt qi "1.prems"
    have "try_post q i match_ids used asg (try_matches q i g t match_ids used asg)"
      by (intro "1.IH" [of "(g, t)" g t]) simp_all
    with lt eq show ?thesis by (simp add: backtrack_post_of_try)
  qed
next
  case (2 q i g t used asg)
  show ?case by (simp add: try_post_Nil)
next
  case (3 q i g t mid rest used asg)
  note lt = "3.prems"(1) and qi = "3.prems"(2) and keys = "3.prems"(4)
  from "3.prems"(3) obtain pre where split: "match_ids = pre @ mid # rest" by blast
  then have "match_ids = (pre @ [mid]) @ rest" by simp
  then have suffix: "\<exists>pre. match_ids = pre @ rest" by blast
  have "mid \<in> set match_ids" unfolding split by simp
  then obtain seed al where lk: "dict_index ROUND32_THIRD_SLOTS mid = Inr (seed, al)"
    and allows: "\<And>g. slot_allows mid g \<longleftrightarrow> g \<in> set al"
    using slot_lookup by blast
  show ?case
  proof (cases "mid \<in> used")
    case True
    then have eq: "try_matches q i g t (mid # rest) used asg = try_matches q i g t rest used asg"
      by simp
    have no: "\<not> fits (drop i q) used (mid # ms)" for ms
      using fits_head [OF lt qi] True by blast
    from True lt qi suffix keys
    have "try_post q i rest used asg (try_matches q i g t rest used asg)"
      by (intro "3.IH"(1))
    with no show ?thesis unfolding eq by (intro try_post_skip)
  next
    case fresh: False
    show ?thesis
    proof (cases "g \<in> set al")
      case False
      with fresh lk
      have eq: "try_matches q i g t (mid # rest) used asg = try_matches q i g t rest used asg"
        by simp
      have no: "\<not> fits (drop i q) used (mid # ms)" for ms
        using fits_head [OF lt qi] False allows by blast
      from fresh lk False lt qi suffix keys
      have "try_post q i rest used asg (try_matches q i g t rest used asg)"
        by (intro "3.IH"(2) [of "(seed, al)" seed al]) simp_all
      with no show ?thesis unfolding eq by (intro try_post_skip)
    next
      case True
      define r where "r = backtrack q (i + 1) (insert mid used) (AList.update mid (g, t) asg)"
      from lt have "i + 1 \<le> length q" by simp
      moreover from keys
      have "fst ` set (AList.update mid (g, t) asg) \<subseteq> insert mid used"
        by (rule update_keys_subset)
      ultimately have "backtrack_post q (i + 1) (insert mid used) (AList.update mid (g, t) asg) r"
        unfolding r_def using fresh lk True
        by (intro "3.IH"(3) [of "(seed, al)" seed al]) simp_all
      then have bp: "backtrack_post q (Suc i) (insert mid used) (AList.update mid (g, t) asg) r"
        by simp
      then consider (found) u a where "r = Inr (True, u, a)"
        | (none) u a where "r = Inr (False, u, a)"
        unfolding backtrack_post_def by blast
      then show ?thesis
      proof cases
        case found
        with fresh lk True
        have eq: "try_matches q i g t (mid # rest) used asg = Inr (True, u, a)"
          by (simp add: r_def)
        from True allows have "slot_allows mid g" by simp
        with lt qi split fresh keys bp found show ?thesis
          unfolding eq by (intro try_post_found) simp_all
      next
        case none
        note undo = try_post_undo [OF lt qi fresh keys bp [unfolded none]]
        from fresh lk True none undo(1,2)
        have "try_matches q i g t (mid # rest) used asg
            = try_matches q i g t rest (u - {mid}) (AList.delete mid a)"
          by (auto simp: r_def)
        then have eq: "try_matches q i g t (mid # rest) used asg
            = try_matches q i g t rest used asg"
          using undo(3,4) by simp
        have "try_post q i rest (u - {mid}) (AList.delete mid a)
                (try_matches q i g t rest (u - {mid}) (AList.delete mid a))"
          using fresh lk True none [unfolded r_def] undo lt qi suffix keys
          by (intro "3.IH"(4) [of "(seed, al)" seed al "(False, u, a)" False "(u, a)" u a])
             simp_all
        then have "try_post q i rest used asg (try_matches q i g t rest used asg)"
          using undo(3,4) by simp
        with undo(5) show ?thesis unfolding eq by (intro try_post_skip)
      qed
    qed
  qed
qed


lemma distribuir_cases:
  assumes len: "length q = 8"
  shows "(\<exists>ms. distribuir_terceiros_nos_jogos q = Inr (Some (zip ms q), None)
            \<and> valid_matching q ms
            \<and> (\<forall>ms'. valid_matching q ms' \<longrightarrow> map slot_index ms \<le> map slot_index ms'))
       \<or> (distribuir_terceiros_nos_jogos q
             = Inr (None, Some ''Unable to assign the selected third-placed teams to the Round of 32.'')
           \<and> (\<forall>ms. \<not> valid_matching q ms))"
proof -
  have "backtrack_post q 0 {} [] (backtrack q 0 {} [])"
    by (rule backtrack_try_matches_post(1)) simp_all
  then consider
    (found) ms where "backtrack q 0 {} [] = Inr (True, set ms, zip ms q)" "fits q {} ms"
      "\<And>ms'. fits q {} ms' \<Longrightarrow> map slot_index ms \<le> map slot_index ms'"
  | (none) "backtrack q 0 {} [] = Inr (False, {}, [])" "\<And>ms. \<not> fits q {} ms"
    unfolding backtrack_post_def by auto
  then show ?thesis
  proof cases
    case found
    from found(1) len have "distribuir_terceiros_nos_jogos q = Inr (Some (zip ms q), None)"
      by (simp add: distribuir_terceiros_nos_jogos_def)
    with found(2,3) show ?thesis by (auto simp: fits_valid_matching)
  next
    case none
    from none(1) len have "distribuir_terceiros_nos_jogos q
        = Inr (None, Some ''Unable to assign the selected third-placed teams to the Round of 32.'')"
      by (simp add: distribuir_terceiros_nos_jogos_def)
    with none(2) show ?thesis by (auto simp: fits_valid_matching)
  qed
qed

lemma valid_matching_length: "valid_matching q ms \<Longrightarrow> length ms = length q"
  by (auto simp: valid_matching_def dest: list_all2_lengthD)

lemma valid_matching_all_slots:
  assumes "valid_matching q ms" and "length q = 8"
  shows "set ms = set match_ids"
proof -
  from assms have "length ms = 8" by (simp add: valid_matching_length)
  moreover from assms have "distinct ms" and sub: "set ms \<subseteq> set match_ids"
    by (simp_all add: valid_matching_def)
  ultimately have "card (set ms) = 8" by (simp add: distinct_card)
  moreover have "card (set match_ids) = 8"
    using match_ids_distinct by (simp add: distinct_card) (simp add: match_ids_def ROUND32_THIRD_SLOTS_def)
  ultimately show ?thesis using sub by (intro card_subset_eq) simp_all
qed

lemma slot_index_inj: "inj_on slot_index (set match_ids)"
  by (simp add: slot_index_def match_ids_def ROUND32_THIRD_SLOTS_def)

lemma slot_index_map_inj:
  assumes "map slot_index ms = map slot_index ms'"
    and "set ms \<subseteq> set match_ids" and "set ms' \<subseteq> set match_ids"
  shows "ms = ms'"
proof -
  have "inj_on slot_index (set ms \<union> set ms')"
    using slot_index_inj assms(2,3) by (auto intro: inj_on_subset)
  with assms(1) show ?thesis by (simp add: inj_on_map_eq_map)
qed

text \<open>
  C1. For a list of exactly 8 qualified pairs that admits a valid matching (a bijection
  of the pairs to the 8 third-place slots that puts every pair in a slot admitting its
  group), \<open>distribuir_terceiros_nos_jogos\<close> returns an assignment and no error: the
  assignment binds each of the 8 slots once, its values are the 8 pairs, each once, and
  every pair sits in a slot that admits its group. For 8 pairs with no valid matching it
  returns no assignment and the message "Unable to assign ...". For a list whose length
  is not 8 it returns no assignment and the message "Exactly 8 ...". It never raises.
\<close>

theorem distribuir_terceiros_nos_jogos_spec:
  "(length qualified = 8 \<and> (\<exists>ms. valid_matching qualified ms) \<longrightarrow>
      (\<exists>asg. distribuir_terceiros_nos_jogos qualified = Inr (Some asg, None)
            \<and> map snd asg = qualified
            \<and> valid_matching qualified (map fst asg)
            \<and> distinct (map fst asg)
            \<and> set (map fst asg) = set match_ids))
   \<and> (length qualified = 8 \<and> \<not> (\<exists>ms. valid_matching qualified ms) \<longrightarrow>
        distribuir_terceiros_nos_jogos qualified
          = Inr (None, Some ''Unable to assign the selected third-placed teams to the Round of 32.''))
   \<and> (length qualified \<noteq> 8 \<longrightarrow>
        distribuir_terceiros_nos_jogos qualified
          = Inr (None, Some ''Exactly 8 third-placed teams must be qualified.''))"
proof (intro conjI impI)
  assume "length qualified \<noteq> 8"
  then show "distribuir_terceiros_nos_jogos qualified
      = Inr (None, Some ''Exactly 8 third-placed teams must be qualified.'')"
    by (simp add: distribuir_terceiros_nos_jogos_def)
next
  assume "length qualified = 8 \<and> \<not> (\<exists>ms. valid_matching qualified ms)"
  then show "distribuir_terceiros_nos_jogos qualified
      = Inr (None, Some ''Unable to assign the selected third-placed teams to the Round of 32.'')"
    using distribuir_cases [of "qualified"] by blast
next
  assume a: "length qualified = 8 \<and> (\<exists>ms. valid_matching qualified ms)"
  with distribuir_cases [of "qualified"] obtain ms where
    res: "distribuir_terceiros_nos_jogos qualified = Inr (Some (zip ms qualified), None)"
    and vm: "valid_matching qualified ms"
    by blast
  from vm have len: "length ms = length qualified" by (rule valid_matching_length)
  then have fst: "map fst (zip ms qualified) = ms" and snd: "map snd (zip ms qualified) = qualified"
    by simp_all
  from vm have "distinct ms" by (simp add: valid_matching_def)
  moreover from a have "length qualified = 8" by blast
  with vm have "set ms = set match_ids" by (rule valid_matching_all_slots)
  ultimately show "\<exists>asg. distribuir_terceiros_nos_jogos qualified = Inr (Some asg, None)
            \<and> map snd asg = qualified
            \<and> valid_matching qualified (map fst asg)
            \<and> distinct (map fst asg)
            \<and> set (map fst asg) = set match_ids"
    using res vm fst snd by (intro exI [of _ "zip ms qualified"]) simp
qed


theorem distribuir_terceiros_nos_jogos_spec_witness:
  "(\<exists>asg. distribuir_terceiros_nos_jogos
           [(''A'', ''South Korea''), (''B'', ''Qatar''), (''C'', ''Haiti''),
            (''D'', ''Australia''), (''E'', ''Ivory Coast''), (''F'', ''UEFA B''),
            (''G'', ''Iran''), (''H'', ''Saudi Arabia'')] = Inr (Some asg, None)
         \<and> map snd asg =
           [(''A'', ''South Korea''), (''B'', ''Qatar''), (''C'', ''Haiti''),
            (''D'', ''Australia''), (''E'', ''Ivory Coast''), (''F'', ''UEFA B''),
            (''G'', ''Iran''), (''H'', ''Saudi Arabia'')]
         \<and> set (map fst asg) = set match_ids)
   \<and> valid_matching
        [(''A'', ''South Korea''), (''B'', ''Qatar''), (''C'', ''Haiti''),
         (''D'', ''Australia''), (''E'', ''Ivory Coast''), (''F'', ''UEFA B''),
         (''G'', ''Iran''), (''H'', ''Saudi Arabia'')]
        [''M82'', ''M81'', ''M79'', ''M87'', ''M85'', ''M74'', ''M77'', ''M80'']
   \<and> distribuir_terceiros_nos_jogos
        [(''A'', ''South Korea''), (''A'', ''Mexico''), (''A'', ''South Africa''),
         (''D'', ''Australia''), (''K'', ''Uzbekistan''), (''L'', ''Ghana''),
         (''G'', ''Iran''), (''H'', ''Saudi Arabia'')]
       = Inr (None, Some ''Unable to assign the selected third-placed teams to the Round of 32.'')
   \<and> \<not> (\<exists>ms. valid_matching
        [(''A'', ''South Korea''), (''A'', ''Mexico''), (''A'', ''South Africa''),
         (''D'', ''Australia''), (''K'', ''Uzbekistan''), (''L'', ''Ghana''),
         (''G'', ''Iran''), (''H'', ''Saudi Arabia'')] ms)
   \<and> distribuir_terceiros_nos_jogos [(''A'', ''South Korea''), (''B'', ''Qatar'')]
       = Inr (None, Some ''Exactly 8 third-placed teams must be qualified.'')"
proof -
  let ?q0 = "[(''A'', ''South Korea''), (''B'', ''Qatar''), (''C'', ''Haiti''),
            (''D'', ''Australia''), (''E'', ''Ivory Coast''), (''F'', ''UEFA B''),
            (''G'', ''Iran''), (''H'', ''Saudi Arabia'')]"
  let ?q1 = "[(''A'', ''South Korea''), (''A'', ''Mexico''), (''A'', ''South Africa''),
         (''D'', ''Australia''), (''K'', ''Uzbekistan''), (''L'', ''Ghana''),
         (''G'', ''Iran''), (''H'', ''Saudi Arabia'')]"
  let ?q2 = "[(''A'', ''South Korea''), (''B'', ''Qatar'')]"
  have vm: "valid_matching ?q0 [''M82'', ''M81'', ''M79'', ''M87'', ''M85'', ''M74'', ''M77'', ''M80'']"
    by code_simp
  then have ex: "\<exists>ms. valid_matching ?q0 ms" by (rule exI)
  have 0: "\<exists>asg. distribuir_terceiros_nos_jogos ?q0 = Inr (Some asg, None)
         \<and> map snd asg = ?q0 \<and> set (map fst asg) = set match_ids"
    using distribuir_terceiros_nos_jogos_spec [of ?q0] ex by auto
  have e1: "distribuir_terceiros_nos_jogos ?q1
       = Inr (None, Some ''Unable to assign the selected third-placed teams to the Round of 32.'')"
    by code_simp
  have 1: "\<not> (\<exists>ms. valid_matching ?q1 ms)"
  proof
    assume "\<exists>ms. valid_matching ?q1 ms"
    with distribuir_terceiros_nos_jogos_spec [of ?q1]
    obtain asg where "distribuir_terceiros_nos_jogos ?q1 = Inr (Some asg, None)" by auto
    with e1 show False by simp
  qed
  have 2: "distribuir_terceiros_nos_jogos ?q2
       = Inr (None, Some ''Exactly 8 third-placed teams must be qualified.'')"
    using distribuir_terceiros_nos_jogos_spec [of ?q2] by simp
  from 0 vm e1 1 2 show ?thesis by blast
qed

text \<open>
  C5. Recomputation is deterministic: the search reads nothing but the qualified list
  and the fixed table (the set of used slots is only tested for membership, never
  iterated), so the assignment, and the bracket built from it, is a function of the input
  snapshot. Among several valid matchings the engine always returns the same one: the
  pairs are taken in list order and the slots in the fixed order of
  \<open>ROUND32_THIRD_SLOTS\<close>, so the matching returned is the least valid matching in the
  lexicographic order of slot positions, and it is the only valid matching with that
  property.
\<close>

theorem distribuir_least_matching:
  assumes "distribuir_terceiros_nos_jogos qualified = Inr (Some asg, None)"
  shows "asg = zip (map fst asg) qualified
    \<and> valid_matching qualified (map fst asg)
    \<and> (\<forall>ms. valid_matching qualified ms \<longrightarrow>
          map slot_index (map fst asg) \<le> map slot_index ms)
    \<and> (\<forall>ms. valid_matching qualified ms
            \<and> (\<forall>ms'. valid_matching qualified ms' \<longrightarrow> map slot_index ms \<le> map slot_index ms')
          \<longrightarrow> ms = map fst asg)"
proof -
  from assms have len: "length qualified = 8"
    by (auto simp: distribuir_terceiros_nos_jogos_def split: if_splits)
  with distribuir_cases [of "qualified"] assms obtain best where
    asg: "asg = zip best qualified" and vm: "valid_matching qualified best"
    and least: "\<And>ms. valid_matching qualified ms \<Longrightarrow> map slot_index best \<le> map slot_index ms"
    by auto
  from vm have "length best = length qualified" by (rule valid_matching_length)
  with asg have best: "map fst asg = best" by simp
  have uniq: "ms = best"
    if v: "valid_matching qualified ms"
      and l: "\<And>ms'. valid_matching qualified ms' \<Longrightarrow> map slot_index ms \<le> map slot_index ms'"
    for ms
  proof -
    from v have "map slot_index best \<le> map slot_index ms" by (rule least)
    moreover from vm have "map slot_index ms \<le> map slot_index best" by (rule l)
    ultimately have "map slot_index ms = map slot_index best" by simp
    moreover from v vm have "set ms \<subseteq> set match_ids" "set best \<subseteq> set match_ids"
      by (simp_all add: valid_matching_def)
    ultimately show ?thesis by (rule slot_index_map_inj)
  qed
  from asg vm least uniq show ?thesis unfolding best by blast
qed

theorem distribuir_least_matching_witness:
  "distribuir_terceiros_nos_jogos
     [(''A'', ''South Korea''), (''B'', ''Qatar''), (''C'', ''Haiti''),
      (''D'', ''Australia''), (''E'', ''Ivory Coast''), (''F'', ''UEFA B''),
      (''G'', ''Iran''), (''H'', ''Saudi Arabia'')]
     = Inr (Some [(''M74'', ''A'', ''South Korea''), (''M81'', ''B'', ''Qatar''),
                  (''M77'', ''C'', ''Haiti''), (''M87'', ''D'', ''Australia''),
                  (''M80'', ''E'', ''Ivory Coast''), (''M79'', ''F'', ''UEFA B''),
                  (''M85'', ''G'', ''Iran''), (''M82'', ''H'', ''Saudi Arabia'')], None)
   \<and> valid_matching
        [(''A'', ''South Korea''), (''B'', ''Qatar''), (''C'', ''Haiti''),
         (''D'', ''Australia''), (''E'', ''Ivory Coast''), (''F'', ''UEFA B''),
         (''G'', ''Iran''), (''H'', ''Saudi Arabia'')]
        [''M74'', ''M81'', ''M77'', ''M87'', ''M82'', ''M79'', ''M85'', ''M80'']
   \<and> map slot_index [''M74'', ''M81'', ''M77'', ''M87'', ''M80'', ''M79'', ''M85'', ''M82'']
       \<le> map slot_index [''M74'', ''M81'', ''M77'', ''M87'', ''M82'', ''M79'', ''M85'', ''M80'']"
proof -
  let ?q0 = "[(''A'', ''South Korea''), (''B'', ''Qatar''), (''C'', ''Haiti''),
            (''D'', ''Australia''), (''E'', ''Ivory Coast''), (''F'', ''UEFA B''),
            (''G'', ''Iran''), (''H'', ''Saudi Arabia'')]"
  let ?asg = "[(''M74'', ''A'', ''South Korea''), (''M81'', ''B'', ''Qatar''),
                  (''M77'', ''C'', ''Haiti''), (''M87'', ''D'', ''Australia''),
                  (''M80'', ''E'', ''Ivory Coast''), (''M79'', ''F'', ''UEFA B''),
                  (''M85'', ''G'', ''Iran''), (''M82'', ''H'', ''Saudi Arabia'')]"
  let ?alt = "[''M74'', ''M81'', ''M77'', ''M87'', ''M82'', ''M79'', ''M85'', ''M80'']"
  have run: "distribuir_terceiros_nos_jogos ?q0 = Inr (Some ?asg, None)"
    by code_simp
  have alt: "valid_matching ?q0 ?alt"
    by code_simp
  from distribuir_least_matching [OF run] alt
  have "map slot_index (map fst ?asg) \<le> map slot_index ?alt" by blast
  then have "map slot_index [''M74'', ''M81'', ''M77'', ''M87'', ''M80'', ''M79'', ''M85'', ''M82'']
       \<le> map slot_index ?alt" by simp
  with run alt show ?thesis by blast
qed

subsection \<open>Choosing winners and the bracket\<close>

lemma escolher_pending:
  "\<not> truthy t1 \<or> \<not> truthy t2 \<Longrightarrow> escolher_vencedor_ui radio mid t1 t2 = None"
  by (simp add: escolher_vencedor_ui_def)

lemma escolher_Some:
  assumes "escolher_vencedor_ui radio mid t1 t2 = Some x"
  shows "\<exists>a b. t1 = Some a \<and> t2 = Some b \<and> a \<noteq> [] \<and> b \<noteq> []
           \<and> x = radio (''winner_'' @ mid) [a, b]"
  using assms
  by (auto simp: escolher_vencedor_ui_def truthy_def split: if_splits option.splits)

lemma escolher_member:
  assumes "widget_ok radio" and "escolher_vencedor_ui radio mid t1 t2 = Some x"
  shows "t1 = Some x \<or> t2 = Some x"
proof -
  from escolher_Some [OF assms(2)] obtain a b where
    t: "t1 = Some a" "t2 = Some b" and x: "x = radio (''winner_'' @ mid) [a, b]" by blast
  from assms(1) have "radio (''winner_'' @ mid) [a, b] \<in> set [a, b]"
    unfolding widget_ok_def by blast
  with t x show ?thesis by auto
qed

lemma fold_update_fresh:
  assumes "distinct (map fst tbl)" and "fst ` set acc \<inter> fst ` set tbl = {}"
  shows "fold (\<lambda>(mid, src) w. AList.update mid (f mid src) w) tbl acc
       = acc @ map (\<lambda>(mid, src). (mid, f mid src)) tbl"
  using assms
proof (induction tbl arbitrary: acc)
  case Nil
  then show ?case by simp
next
  case (Cons row tbl)
  obtain mid src where row: "row = (mid, src)" by (cases row)
  from Cons.prems row have fresh: "mid \<notin> fst ` set acc" by auto
  then have upd: "AList.update mid (f mid src) acc = acc @ [(mid, f mid src)]"
    by (rule update_fresh)
  from Cons.prems row
  have "fst ` set (acc @ [(mid, f mid src)]) \<inter> fst ` set tbl = {}" by auto
  moreover from Cons.prems have "distinct (map fst tbl)" by simp
  ultimately have "fold (\<lambda>(mid, src) w. AList.update mid (f mid src) w) tbl
        (acc @ [(mid, f mid src)])
      = (acc @ [(mid, f mid src)]) @ map (\<lambda>(mid, src). (mid, f mid src)) tbl"
    by (intro Cons.IH)
  with row upd show ?case by simp
qed

lemma round_winners_rows:
  assumes "distinct (map fst tbl)"
  shows "round_winners radio tbl prev
       = map (\<lambda>(mid, (m1, m2)).
                (mid, escolher_vencedor_ui radio mid (dict_get prev m1) (dict_get prev m2))) tbl"
proof -
  have "round_winners radio tbl prev
      = fold (\<lambda>(mid, src) w.
                AList.update mid
                  (case src of (m1, m2) \<Rightarrow>
                     escolher_vencedor_ui radio mid (dict_get prev m1) (dict_get prev m2)) w)
             tbl []"
    unfolding round_winners_def
    by (rule arg_cong [where f = "\<lambda>body. fold body tbl []"]) (auto simp: fun_eq_iff)
  also have "\<dots> = [] @ map (\<lambda>(mid, src).
                (mid, case src of (m1, m2) \<Rightarrow>
                     escolher_vencedor_ui radio mid (dict_get prev m1) (dict_get prev m2))) tbl"
    using assms by (intro fold_update_fresh) simp_all
  finally show ?thesis by (simp add: case_prod_unfold)
qed

lemma round_winners_get:
  assumes "distinct (map fst tbl)" and "(mid, (m1, m2)) \<in> set tbl"
  shows "dict_get (round_winners radio tbl prev) mid
       = escolher_vencedor_ui radio mid (dict_get prev m1) (dict_get prev m2)"
proof -
  let ?rows = "map (\<lambda>(mid, (m1, m2)).
                (mid, escolher_vencedor_ui radio mid (dict_get prev m1) (dict_get prev m2))) tbl"
  have keys: "map fst ?rows = map fst tbl" by (simp add: case_prod_unfold comp_def)
  have "distinct (map fst ?rows)" unfolding keys by (rule assms(1))
  moreover from assms(2)
  have "(mid, escolher_vencedor_ui radio mid (dict_get prev m1) (dict_get prev m2)) \<in> set ?rows"
    by force
  ultimately have "map_of ?rows mid
      = Some (escolher_vencedor_ui radio mid (dict_get prev m1) (dict_get prev m2))"
    by (rule map_of_is_SomeI)
  then show ?thesis by (simp add: dict_get_def round_winners_rows [OF assms(1)])
qed

lemma round_winners_keys:
  "distinct (map fst tbl) \<Longrightarrow> map fst (round_winners radio tbl prev) = map fst tbl"
  by (simp add: round_winners_rows case_prod_unfold comp_def)


lemma for_each_round32:
  assumes "for_each
       (\<lambda>mid winners32.
          case dict_index jogos mid of
            Inl e \<Rightarrow> Inl e
          | Inr (t1, t2, desc) \<Rightarrow>
              Inr (AList.update mid (escolher_vencedor_ui radio mid t1 t2) winners32))
       mids acc = Inr w"
    and "distinct mids" and "fst ` set acc \<inter> set mids = {}"
  shows "w = acc @ map (\<lambda>mid. (mid, case map_of jogos mid of
                                     Some (t1, t2, desc) \<Rightarrow> escolher_vencedor_ui radio mid t1 t2
                                   | None \<Rightarrow> None)) mids
       \<and> set mids \<subseteq> dom (map_of jogos)"
  using assms
proof (induction mids arbitrary: acc)
  case Nil
  then show ?case by simp
next
  case (Cons mid mids)
  let ?body = "\<lambda>mid winners32.
          case dict_index jogos mid of
            Inl e \<Rightarrow> Inl e
          | Inr (t1, t2, desc) \<Rightarrow>
              Inr (AList.update mid (escolher_vencedor_ui radio mid t1 t2) winners32)"
  from Cons.prems(1) obtain t1 t2 desc where look: "map_of jogos mid = Some (t1, t2, desc)"
    by (cases "map_of jogos mid") (auto simp: dict_index_def)
  from Cons.prems(3) have "mid \<notin> fst ` set acc" by auto
  then have upd: "AList.update mid (escolher_vencedor_ui radio mid t1 t2) acc
      = acc @ [(mid, escolher_vencedor_ui radio mid t1 t2)]"
    by (rule update_fresh)
  from Cons.prems(1) look upd
  have run: "for_each ?body mids (acc @ [(mid, escolher_vencedor_ui radio mid t1 t2)]) = Inr w"
    by (simp add: dict_index_def)
  from Cons.prems(2,3)
  have "distinct mids"
    and "fst ` set (acc @ [(mid, escolher_vencedor_ui radio mid t1 t2)]) \<inter> set mids = {}"
    by auto
  with run have "w = (acc @ [(mid, escolher_vencedor_ui radio mid t1 t2)])
        @ map (\<lambda>mid. (mid, case map_of jogos mid of
                                Some (t1, t2, desc) \<Rightarrow> escolher_vencedor_ui radio mid t1 t2
                              | None \<Rightarrow> None)) mids
      \<and> set mids \<subseteq> dom (map_of jogos)"
    by (intro Cons.IH)
  with look show ?case by auto
qed

lemma order32_distinct: "distinct order32"
  by (simp add: order32_def)

lemma round32_winners_rows:
  assumes "round32_winners radio jogos = Inr w"
  shows "w = map (\<lambda>mid. (mid, case map_of jogos mid of
                               Some (t1, t2, desc) \<Rightarrow> escolher_vencedor_ui radio mid t1 t2
                             | None \<Rightarrow> None)) order32"
    and "set order32 \<subseteq> dom (map_of jogos)"
  using for_each_round32 [OF assms [unfolded round32_winners_def] order32_distinct] by simp_all

lemma round32_winners_get:
  assumes "round32_winners radio jogos = Inr w" and "mid \<in> set order32"
  shows "\<exists>t1 t2 desc. map_of jogos mid = Some (t1, t2, desc)
           \<and> dict_get w mid = escolher_vencedor_ui radio mid t1 t2"
proof -
  from round32_winners_rows(2) [OF assms(1)] assms(2)
  obtain t1 t2 desc where look: "map_of jogos mid = Some (t1, t2, desc)" by force
  have "map_of w mid = Some (case map_of jogos mid of
                               Some (t1, t2, desc) \<Rightarrow> escolher_vencedor_ui radio mid t1 t2
                             | None \<Rightarrow> None)"
    unfolding round32_winners_rows(1) [OF assms(1)] using assms(2)
    by (simp add: map_of_map_restrict)
  with look show ?thesis by (simp add: dict_get_def)
qed

lemma for_each_round32_total:
  assumes "set mids \<subseteq> dom (map_of jogos)"
  shows "\<exists>w. for_each
       (\<lambda>mid winners32.
          case dict_index jogos mid of
            Inl e \<Rightarrow> Inl e
          | Inr (t1, t2, desc) \<Rightarrow>
              Inr (AList.update mid (escolher_vencedor_ui radio mid t1 t2) winners32))
       mids acc = Inr w"
  using assms
proof (induction mids arbitrary: acc)
  case Nil
  then show ?case by simp
next
  case (Cons mid mids)
  then obtain t1 t2 desc where "map_of jogos mid = Some (t1, t2, desc)" by force
  with Cons show ?case by (simp add: dict_index_def)
qed

lemma third_place_block_unfold:
  "third_place_block radio wQ wS =
     (if list_all truthy [dict_get wQ ''M97'', dict_get wQ ''M98'', dict_get wS ''M101'',
                          dict_get wQ ''M99'', dict_get wQ ''M100'', dict_get wS ''M102'']
      then Inr (Third_place_match
             (if dict_get wS ''M101'' = dict_get wQ ''M97''
              then dict_get wQ ''M98'' else dict_get wQ ''M97'')
             (if dict_get wS ''M102'' = dict_get wQ ''M99''
              then dict_get wQ ''M100'' else dict_get wQ ''M99'')
             (escolher_vencedor_ui radio ''M103 (Third Place)''
                (if dict_get wS ''M101'' = dict_get wQ ''M97''
                 then dict_get wQ ''M98'' else dict_get wQ ''M97'')
                (if dict_get wS ''M102'' = dict_get wQ ''M99''
                 then dict_get wQ ''M100'' else dict_get wQ ''M99'')))
      else Inr Waiting_for_semifinals)"
  by (simp add: third_place_block_def dict_index_def SEMIS_MATCHES_def Let_def)

lemma knockout_total:
  assumes "set order32 \<subseteq> dom (map_of jogos)"
  shows "\<exists>b. knockout radio jogos = Inr b"
proof -
  from for_each_round32_total [OF assms] obtain w where "round32_winners radio jogos = Inr w"
    unfolding round32_winners_def by blast
  then show ?thesis
    by (simp add: knockout_def Let_def third_place_block_unfold)
qed

lemma knockout_parts:
  assumes "knockout radio jogos = Inr b"
  shows "round32_winners radio jogos = Inr (winners32 b)"
    and "winners16 b = round_winners radio ROUND16_MATCHES (winners32 b)"
    and "winnersQ b = round_winners radio QUARTERS_MATCHES (winners16 b)"
    and "winnersS b = round_winners radio SEMIS_MATCHES (winnersQ b)"
    and "third_place_block radio (winnersQ b) (winnersS b) = Inr (third b)"
    and "champion b = final_block radio (winnersS b)"
  using assms
  by (auto simp: knockout_def Let_def split: sum.splits)


lemma tables_distinct:
  "distinct (map fst ROUND16_MATCHES)" "distinct (map fst QUARTERS_MATCHES)"
  "distinct (map fst SEMIS_MATCHES)"
  by (simp_all add: ROUND16_MATCHES_def QUARTERS_MATCHES_def SEMIS_MATCHES_def)

lemma match_rows_winner:
  assumes run: "knockout radio jogos = Inr b"
    and row: "(mid, t1, t2, w) \<in> set (match_rows jogos b)"
  shows "w = escolher_vencedor_ui radio mid t1 t2"
proof -
  note parts = knockout_parts [OF run]
  let ?r32 = "map (\<lambda>mid. case map_of jogos mid of
                  Some (t1, t2, desc) \<Rightarrow> (mid, t1, t2, dict_get (winners32 b) mid)
                | None \<Rightarrow> (mid, None, None, dict_get (winners32 b) mid)) order32"
  let ?r16 = "map (\<lambda>(mid, (m1, m2)).
              (mid, dict_get (winners32 b) m1, dict_get (winners32 b) m2,
               dict_get (winners16 b) mid)) ROUND16_MATCHES"
  let ?qf = "map (\<lambda>(mid, (m1, m2)).
              (mid, dict_get (winners16 b) m1, dict_get (winners16 b) m2,
               dict_get (winnersQ b) mid)) QUARTERS_MATCHES"
  let ?sf = "map (\<lambda>(mid, (m1, m2)).
              (mid, dict_get (winnersQ b) m1, dict_get (winnersQ b) m2,
               dict_get (winnersS b) mid)) SEMIS_MATCHES"
  let ?third = "case third b of
          Waiting_for_semifinals \<Rightarrow> [(''M103 (Third Place)'', None, None, None)]
        | Third_place_match l1 l2 w \<Rightarrow> [(''M103 (Third Place)'', l1, l2, w)]"
  let ?final = "(''M104 (Final)'', dict_get (winnersS b) ''M101'', dict_get (winnersS b) ''M102'',
         champion b)"
  from row have "(mid, t1, t2, w) \<in> set ?r32 \<union> set ?r16 \<union> set ?qf \<union> set ?sf
      \<union> set ?third \<union> {?final}"
    unfolding match_rows_def by (simp only: set_append set_simps Un_assoc Un_insert_right Un_empty_right)
  then consider (r32) "(mid, t1, t2, w) \<in> set ?r32" | (r16) "(mid, t1, t2, w) \<in> set ?r16"
    | (qf) "(mid, t1, t2, w) \<in> set ?qf" | (sf) "(mid, t1, t2, w) \<in> set ?sf"
    | (third) "(mid, t1, t2, w) \<in> set ?third" | (final) "(mid, t1, t2, w) = ?final"
    by blast
  then show ?thesis
  proof cases
    case r32
    then obtain m where m: "m \<in> set order32"
      and eq: "(mid, t1, t2, w) = (case map_of jogos m of
                  Some (t1, t2, desc) \<Rightarrow> (m, t1, t2, dict_get (winners32 b) m)
                | None \<Rightarrow> (m, None, None, dict_get (winners32 b) m))"
      by auto
    from round32_winners_get [OF parts(1) m] obtain a1 a2 desc where
      "map_of jogos m = Some (a1, a2, desc)"
      "dict_get (winners32 b) m = escolher_vencedor_ui radio m a1 a2" by blast
    with eq show ?thesis by simp
  next
    case r16
    then obtain m1 m2 where "(mid, (m1, m2)) \<in> set ROUND16_MATCHES"
      "t1 = dict_get (winners32 b) m1" "t2 = dict_get (winners32 b) m2"
      "w = dict_get (winners16 b) mid" by auto
    then show ?thesis
      unfolding parts(2) by (simp add: round_winners_get [OF tables_distinct(1)])
  next
    case qf
    then obtain m1 m2 where "(mid, (m1, m2)) \<in> set QUARTERS_MATCHES"
      "t1 = dict_get (winners16 b) m1" "t2 = dict_get (winners16 b) m2"
      "w = dict_get (winnersQ b) mid" by auto
    then show ?thesis
      unfolding parts(3) by (simp add: round_winners_get [OF tables_distinct(2)])
  next
    case sf
    then obtain m1 m2 where "(mid, (m1, m2)) \<in> set SEMIS_MATCHES"
      "t1 = dict_get (winnersQ b) m1" "t2 = dict_get (winnersQ b) m2"
      "w = dict_get (winnersS b) mid" by auto
    then show ?thesis
      unfolding parts(4) by (simp add: round_winners_get [OF tables_distinct(3)])
  next
    case third
    show ?thesis
    proof (cases "third b")
      case Waiting_for_semifinals
      with third show ?thesis by (simp add: escolher_vencedor_ui_def truthy_def)
    next
      case (Third_place_match l1 l2 w')
      with third parts(5) show ?thesis
        by (auto simp: third_place_block_unfold split: if_splits)
    qed
  next
    case final
    then show ?thesis by (simp add: parts(6) final_block_def)
  qed
qed

text \<open>
  C2. In every state in which the four quarterfinal winners that feed the two semifinals
  are resolved and both semifinals have a recorded winner, the third-place column shows
  a match whose two participants are the two semifinal losers; the loser of a semifinal
  is the participant of that semifinal that is not its recorded winner (the second
  participant when the winner is the first one, the first one otherwise, hence different
  from the winner whenever the two participants differ). While any of the six inputs is
  missing (\<^verbatim>\<open>None\<close> or empty), the column shows the waiting notice and no winner
  can be chosen.
\<close>

theorem third_place_block_losers:
  fixes radio :: choice_widget and winnersQ winnersS :: winners
  defines "sf1_t1 \<equiv> dict_get winnersQ ''M97''" and "sf1_t2 \<equiv> dict_get winnersQ ''M98''"
    and "sf1_winner \<equiv> dict_get winnersS ''M101''"
    and "sf2_t1 \<equiv> dict_get winnersQ ''M99''" and "sf2_t2 \<equiv> dict_get winnersQ ''M100''"
    and "sf2_winner \<equiv> dict_get winnersS ''M102''"
  shows
    "(truthy sf1_t1 \<and> truthy sf1_t2 \<and> truthy sf1_winner
        \<and> truthy sf2_t1 \<and> truthy sf2_t2 \<and> truthy sf2_winner \<longrightarrow>
       (\<exists>sf1_loser sf2_loser.
          third_place_block radio winnersQ winnersS
            = Inr (Third_place_match sf1_loser sf2_loser
                    (escolher_vencedor_ui radio ''M103 (Third Place)'' sf1_loser sf2_loser))
          \<and> (sf1_loser = sf1_t1 \<or> sf1_loser = sf1_t2)
          \<and> (sf1_winner = sf1_t1 \<longrightarrow> sf1_loser = sf1_t2)
          \<and> (sf1_winner \<noteq> sf1_t1 \<longrightarrow> sf1_loser = sf1_t1)
          \<and> (sf1_t1 \<noteq> sf1_t2 \<longrightarrow> sf1_loser \<noteq> sf1_winner)
          \<and> (sf2_loser = sf2_t1 \<or> sf2_loser = sf2_t2)
          \<and> (sf2_winner = sf2_t1 \<longrightarrow> sf2_loser = sf2_t2)
          \<and> (sf2_winner \<noteq> sf2_t1 \<longrightarrow> sf2_loser = sf2_t1)
          \<and> (sf2_t1 \<noteq> sf2_t2 \<longrightarrow> sf2_loser \<noteq> sf2_winner)))
     \<and> (\<not> (truthy sf1_t1 \<and> truthy sf1_t2 \<and> truthy sf1_winner
            \<and> truthy sf2_t1 \<and> truthy sf2_t2 \<and> truthy sf2_winner) \<longrightarrow>
          third_place_block radio winnersQ winnersS = Inr Waiting_for_semifinals)"
  unfolding assms by (auto simp: third_place_block_unfold)

theorem third_place_block_losers_witness:
  "third_place_block (\<lambda>key options. hd options)
       [(''M97'', Some ''Germany''), (''M98'', Some ''Spain''),
        (''M99'', Some ''Brazil''), (''M100'', Some ''Argentina'')]
       [(''M101'', Some ''Germany''), (''M102'', Some ''Argentina'')]
     = Inr (Third_place_match (Some ''Spain'') (Some ''Brazil'') (Some ''Spain''))
   \<and> third_place_block (\<lambda>key options. hd options)
       [(''M97'', Some ''Germany''), (''M98'', Some ''Spain''),
        (''M99'', Some ''Brazil''), (''M100'', None)]
       [(''M101'', Some ''Germany''), (''M102'', None)]
     = Inr Waiting_for_semifinals"
proof -
  let ?wQ = "[(''M97'', Some ''Germany''), (''M98'', Some ''Spain''),
        (''M99'', Some ''Brazil''), (''M100'', Some ''Argentina'')]"
  let ?wS = "[(''M101'', Some ''Germany''), (''M102'', Some ''Argentina'')]"
  let ?wQ' = "[(''M97'', Some ''Germany''), (''M98'', Some ''Spain''),
        (''M99'', Some ''Brazil''), (''M100'', None)]"
  let ?wS' = "[(''M101'', Some ''Germany''), (''M102'', None)]"
  have "third_place_block (\<lambda>key options. hd options) ?wQ ?wS
     = Inr (Third_place_match (Some ''Spain'') (Some ''Brazil'') (Some ''Spain''))"
    using third_place_block_losers [of ?wQ ?wS "\<lambda>key options. hd options"]
    by (auto simp: dict_get_def truthy_def escolher_vencedor_ui_def)
  moreover have "third_place_block (\<lambda>key options. hd options) ?wQ' ?wS'
     = Inr Waiting_for_semifinals"
    using third_place_block_losers [of ?wQ' ?wS' "\<lambda>key options. hd options"]
    by (simp add: dict_get_def truthy_def)
  ultimately show ?thesis by blast
qed

text \<open>
  C4. If at least one of the two participants of a match is unresolved (\<^verbatim>\<open>None\<close> or
  empty), \<open>escolher_vencedor_ui\<close> yields no selection; and a selection it yields, the
  radio widget returning one of its options, is one of the two participants, both of
  them resolved. This holds for every match of every round of the bracket: the winner
  entry of each row is what \<open>escolher_vencedor_ui\<close> yields on the row's participants.
\<close>

theorem winner_needs_both_teams:
  "(\<not> truthy t1 \<or> \<not> truthy t2 \<longrightarrow> escolher_vencedor_ui radio match_id t1 t2 = None)
   \<and> (widget_ok radio \<longrightarrow>
        (\<forall>x. escolher_vencedor_ui radio match_id t1 t2 = Some x \<longrightarrow>
           truthy t1 \<and> truthy t2 \<and> (t1 = Some x \<or> t2 = Some x)))
   \<and> (\<forall>jogos b mid p1 p2 w.
         knockout radio jogos = Inr b \<and> (mid, p1, p2, w) \<in> set (match_rows jogos b) \<longrightarrow>
           w = escolher_vencedor_ui radio mid p1 p2
           \<and> (\<not> truthy p1 \<or> \<not> truthy p2 \<longrightarrow> w = None)
           \<and> (widget_ok radio \<longrightarrow> (\<forall>x. w = Some x \<longrightarrow> p1 = Some x \<or> p2 = Some x)))"
proof (intro conjI impI allI)
  assume "\<not> truthy t1 \<or> \<not> truthy t2"
  then show "escolher_vencedor_ui radio match_id t1 t2 = None" by (rule escolher_pending)
next
  fix x
  assume ok: "widget_ok radio" and some: "escolher_vencedor_ui radio match_id t1 t2 = Some x"
  from some show "truthy t1" "truthy t2"
    by (auto simp: escolher_vencedor_ui_def split: if_splits)
  from ok some show "t1 = Some x \<or> t2 = Some x" by (rule escolher_member)
next
  fix jogos b mid p1 p2 w
  assume a: "knockout radio jogos = Inr b \<and> (mid, p1, p2, w) \<in> set (match_rows jogos b)"
  then show w: "w = escolher_vencedor_ui radio mid p1 p2"
    using match_rows_winner by blast
  { assume "\<not> truthy p1 \<or> \<not> truthy p2"
    then show "w = None" unfolding w by (rule escolher_pending) }
  { fix x assume "widget_ok radio" and "w = Some x"
    then show "p1 = Some x \<or> p2 = Some x" unfolding w by (rule escolher_member) }
qed



theorem winner_needs_both_teams_witness:
  "escolher_vencedor_ui (\<lambda>key options. last options) ''M89'' (Some ''Germany'') None = None
   \<and> escolher_vencedor_ui (\<lambda>key options. last options) ''M89'' (Some ''Germany'') (Some [])
       = None
   \<and> escolher_vencedor_ui (\<lambda>key options. last options) ''M89'' (Some ''Germany'')
        (Some ''France'') = Some ''France''
   \<and> (\<exists>b. knockout (\<lambda>key options. last options)
              (map (\<lambda>mid. (mid, Some (''1st of '' @ mid), Some (''2nd of '' @ mid), mid)) order32)
            = Inr b
          \<and> champion b = escolher_vencedor_ui (\<lambda>key options. last options) ''M104 (Final)''
                (dict_get (winnersS b) ''M101'') (dict_get (winnersS b) ''M102''))"
proof -
  let ?radio = "\<lambda>(key :: string) (options :: string list). last options"
  let ?jogos = "map (\<lambda>mid. (mid, Some (''1st of '' @ mid), Some (''2nd of '' @ mid), mid)) order32"
  have ok: "widget_ok ?radio" by (simp add: widget_ok_def)
  have 1: "escolher_vencedor_ui ?radio ''M89'' (Some ''Germany'') None = None"
    using winner_needs_both_teams [of "Some ''Germany''" None ?radio "''M89''"]
    by (simp add: truthy_def)
  have 2: "escolher_vencedor_ui ?radio ''M89'' (Some ''Germany'') (Some []) = None"
    using winner_needs_both_teams [of "Some ''Germany''" "Some []" ?radio "''M89''"]
    by (simp add: truthy_def)
  have 3: "escolher_vencedor_ui ?radio ''M89'' (Some ''Germany'') (Some ''France'')
      = Some ''France''"
    using winner_needs_both_teams [of "Some ''Germany''" "Some ''France''" ?radio "''M89''"] ok
    by (simp add: escolher_vencedor_ui_def truthy_def)
  have "set order32 \<subseteq> dom (map_of ?jogos)"
    by (simp add: map_of_map_restrict dom_def restrict_map_def subset_iff)
  then obtain b where run: "knockout ?radio ?jogos = Inr b"
    using knockout_total by blast
  have "(''M104 (Final)'', dict_get (winnersS b) ''M101'', dict_get (winnersS b) ''M102'',
         champion b) \<in> set (match_rows ?jogos b)"
    by (simp add: match_rows_def)
  with run winner_needs_both_teams [of None None ?radio "''M89''"]
  have "champion b = escolher_vencedor_ui ?radio ''M104 (Final)''
                (dict_get (winnersS b) ''M101'') (dict_get (winnersS b) ''M102'')"
    by blast
  with run 1 2 3 show ?thesis by blast
qed

lemma winner_entries_keys:
  assumes "knockout radio jogos = Inr b"
  shows "map fst (winner_entries b) = knockout_match_ids"
proof -
  note parts = knockout_parts [OF assms]
  have "map fst (winners32 b) = order32"
    unfolding round32_winners_rows(1) [OF parts(1)] by (simp add: comp_def)
  moreover have "map fst (winners16 b) = map fst ROUND16_MATCHES"
    unfolding parts(2) by (rule round_winners_keys [OF tables_distinct(1)])
  moreover have "map fst (winnersQ b) = map fst QUARTERS_MATCHES"
    unfolding parts(3) by (rule round_winners_keys [OF tables_distinct(2)])
  moreover have "map fst (winnersS b) = map fst SEMIS_MATCHES"
    unfolding parts(4) by (rule round_winners_keys [OF tables_distinct(3)])
  ultimately show ?thesis
    by (simp add: winner_entries_def knockout_match_ids_def)
qed

lemma knockout_match_ids_count:
  "length knockout_match_ids = 32" "distinct knockout_match_ids"
  "length order32 = 16" "length ROUND16_MATCHES = 8" "length QUARTERS_MATCHES = 4"
  "length SEMIS_MATCHES = 2"
  by (simp_all add: knockout_match_ids_def order32_def ROUND16_MATCHES_def
      QUARTERS_MATCHES_def SEMIS_MATCHES_def)

text \<open>
  C6, as the code has it. There is one possible winner entry per knockout match: 16 in
  the round of 32, 8 in the round of 16, 4 quarterfinals, 2 semifinals, the third-place
  match and the final, 32 in total, under 32 distinct match ids; the winner dictionaries
  of every bracket the page computes have exactly these keys.
\<close>

theorem knockout_winner_entries:
  "length order32 = 16 \<and> length ROUND16_MATCHES = 8 \<and> length QUARTERS_MATCHES = 4
   \<and> length SEMIS_MATCHES = 2
   \<and> length knockout_match_ids = 16 + 8 + 4 + 2 + 1 + 1
   \<and> length knockout_match_ids = 32
   \<and> distinct knockout_match_ids
   \<and> (\<forall>radio jogos b. knockout radio jogos = Inr b \<longrightarrow>
         map fst (winner_entries b) = knockout_match_ids \<and> length (winner_entries b) = 32)"
proof -
  have "map fst (winner_entries b) = knockout_match_ids \<and> length (winner_entries b) = 32"
    if "knockout radio jogos = Inr b" for radio jogos b
  proof -
    from that have k: "map fst (winner_entries b) = knockout_match_ids"
      by (rule winner_entries_keys)
    have "length (winner_entries b) = length (map fst (winner_entries b))" by simp
    also have "\<dots> = 32" unfolding k by (rule knockout_match_ids_count(1))
    finally show ?thesis using k by simp
  qed
  with knockout_match_ids_count show ?thesis by simp
qed

theorem knockout_winner_entries_witness:
  "\<exists>b. knockout (\<lambda>key options. hd options)
          (map (\<lambda>mid. (mid, Some (''1st of '' @ mid), Some (''2nd of '' @ mid), mid)) order32)
        = Inr b
      \<and> map fst (winner_entries b) = knockout_match_ids
      \<and> length (winner_entries b) = 32"
proof -
  let ?radio = "\<lambda>(key :: string) (options :: string list). hd options"
  let ?jogos = "map (\<lambda>mid. (mid, Some (''1st of '' @ mid), Some (''2nd of '' @ mid), mid)) order32"
  have "set order32 \<subseteq> dom (map_of ?jogos)"
    by (simp add: map_of_map_restrict dom_def restrict_map_def subset_iff)
  then obtain b where run: "knockout ?radio ?jogos = Inr b"
    using knockout_total by blast
  with knockout_winner_entries show ?thesis by blast
qed

text \<open>The count of 56 entries (32 + 16 + 4 + 2 + 1 + 1) is not the code's: the round of
  32 has 16 matches and the round of 16 has 8.\<close>

theorem knockout_winner_entries_counterexample:
  "length knockout_match_ids \<noteq> 56
   \<and> length knockout_match_ids \<noteq> 32 + 16 + 4 + 2 + 1 + 1
   \<and> length order32 \<noteq> 32
   \<and> length ROUND16_MATCHES \<noteq> 16"
  by (simp add: knockout_match_ids_count)

subsection \<open>Group standings\<close>

lemma escolher_posicoes_length:
  "length (escolher_posicoes selectbox g teams positions pos_choices)
     = length pos_choices + length positions"
  by (induction positions arbitrary: pos_choices)
     (simp_all add: escolher_posicoes.simps Let_def)

lemma fill_group_error_inj: "fill_group_error g = fill_group_error g' \<longleftrightarrow> g = g'"
  by (simp add: fill_group_error_def)

lemma classificar_grupo_unfold:
  assumes "dict_index groups g = Inr teams"
  shows "classificar_grupo selectbox groups g (st, errs) =
     (if validar_permutacao (escolher_posicoes selectbox g teams [0, 1, 2, 3] []) ''-''
      then Inr (AList.update g (escolher_posicoes selectbox g teams [0, 1, 2, 3] []) st, errs)
      else Inr (AList.update g [] st, errs @ [fill_group_error g]))"
  using assms by (simp add: classificar_grupo_def Let_def)

lemma classificar_grupo_result:
  assumes "classificar_grupo selectbox groups g (st, errs) = Inr (st', errs')"
  shows "\<exists>v. st' = AList.update g v st
           \<and> ((v = [] \<and> errs' = errs @ [fill_group_error g])
              \<or> (length v = 4 \<and> ''-'' \<notin> set v \<and> distinct v \<and> errs' = errs))"
proof -
  from assms obtain teams where look: "dict_index groups g = Inr teams"
    by (cases "dict_index groups g") (auto simp: classificar_grupo_def)
  define pc where "pc = escolher_posicoes selectbox g teams [0, 1, 2, 3] []"
  have len: "length pc = 4" by (simp add: pc_def escolher_posicoes_length)
  show ?thesis
  proof (cases "validar_permutacao pc ''-''")
    case True
    with assms look have "st' = AList.update g pc st" "errs' = errs"
      by (simp_all add: classificar_grupo_unfold pc_def)
    moreover from True have "''-'' \<notin> set pc" "distinct pc"
      by (simp_all add: validar_permutacao_distinct)
    ultimately show ?thesis using len by blast
  next
    case False
    with assms look have "st' = AList.update g [] st" "errs' = errs @ [fill_group_error g]"
      by (simp_all add: classificar_grupo_unfold pc_def)
    then show ?thesis by blast
  qed
qed

lemma classificar_grupos_other:
  "for_each (classificar_grupo selectbox groups) gs (st, errs) = Inr (st', errs') \<Longrightarrow>
   g \<notin> set gs \<Longrightarrow>
     map_of st' g = map_of st g
     \<and> (fill_group_error g \<in> set errs' \<longleftrightarrow> fill_group_error g \<in> set errs)"
proof (induction gs arbitrary: st errs)
  case Nil
  then show ?case by simp
next
  case (Cons h gs)
  from Cons.prems(1) obtain st1 errs1 where
    step: "classificar_grupo selectbox groups h (st, errs) = Inr (st1, errs1)"
    and rest: "for_each (classificar_grupo selectbox groups) gs (st1, errs1) = Inr (st', errs')"
    by (auto split: sum.splits)
  from Cons.prems(2) have gh: "g \<noteq> h" and g: "g \<notin> set gs" by auto
  from classificar_grupo_result [OF step] gh
  have "map_of st1 g = map_of st g"
    and "fill_group_error g \<in> set errs1 \<longleftrightarrow> fill_group_error g \<in> set errs"
    by (auto simp: update_conv' fill_group_error_inj)
  with Cons.IH [OF rest g] show ?case by simp
qed

lemma classificar_grupos_invariant:
  "for_each (classificar_grupo selectbox groups) gs (st, errs) = Inr (st', errs') \<Longrightarrow>
   distinct gs \<Longrightarrow> g \<in> set gs \<Longrightarrow> fill_group_error g \<notin> set errs \<Longrightarrow>
     (\<exists>r. map_of st' g = Some r
          \<and> (r = [] \<or> (length r = 4 \<and> ''-'' \<notin> set r \<and> distinct r)))
     \<and> (fill_group_error g \<in> set errs' \<longleftrightarrow> map_of st' g = Some [])"
proof (induction gs arbitrary: st errs)
  case Nil
  then show ?case by simp
next
  case (Cons h gs)
  from Cons.prems(1) obtain st1 errs1 where
    step: "classificar_grupo selectbox groups h (st, errs) = Inr (st1, errs1)"
    and rest: "for_each (classificar_grupo selectbox groups) gs (st1, errs1) = Inr (st', errs')"
    by (auto split: sum.splits)
  from Cons.prems(2) have d: "distinct gs" and h: "h \<notin> set gs" by auto
  from classificar_grupo_result [OF step] obtain v where
    st1: "st1 = AList.update h v st"
    and v: "(v = [] \<and> errs1 = errs @ [fill_group_error h])
            \<or> (length v = 4 \<and> ''-'' \<notin> set v \<and> distinct v \<and> errs1 = errs)"
    by blast
  show ?case
  proof (cases "g = h")
    case True
    with h have "g \<notin> set gs" by simp
    from classificar_grupos_other [OF rest this]
    have "map_of st' g = map_of st1 g"
      and "fill_group_error g \<in> set errs' \<longleftrightarrow> fill_group_error g \<in> set errs1"
      by simp_all
    with True st1 v Cons.prems(4) show ?thesis
      by (auto simp: update_conv')
  next
    case False
    with Cons.prems(3) have g: "g \<in> set gs" by simp
    from v False Cons.prems(4) have "fill_group_error g \<notin> set errs1"
      by (auto simp: fill_group_error_inj)
    from Cons.IH [OF rest d g this] show ?thesis .
  qed
qed

lemma classificar_grupos_total:
  assumes "set gs \<subseteq> dom (map_of groups)"
  shows "\<exists>res. for_each (classificar_grupo selectbox groups) gs state = Inr res"
  using assms
proof (induction gs arbitrary: state)
  case Nil
  then show ?case by simp
next
  case (Cons g gs)
  then obtain teams where "map_of groups g = Some teams" by auto
  then have look: "dict_index groups g = Inr teams" by (simp add: dict_index_def)
  obtain st errs where state: "state = (st, errs)" by (cases state)
  have "\<exists>state'. classificar_grupo selectbox groups g state = Inr state'"
    unfolding state classificar_grupo_unfold [OF look]
    by (cases "validar_permutacao (escolher_posicoes selectbox g teams [0, 1, 2, 3] []) ''-''")
       simp_all
  then obtain state' where "classificar_grupo selectbox groups g state = Inr state'" ..
  with Cons show ?case by simp
qed

lemma GROUP_NAMES_eval:
  "GROUP_NAMES = [''A'', ''B'', ''C'', ''D'', ''E'', ''F'', ''G'', ''H'', ''I'', ''J'', ''K'', ''L'']"
  by (simp add: GROUP_NAMES_def INITIAL_GROUPS_def)

lemma GROUP_NAMES_distinct: "distinct GROUP_NAMES"
  by (simp add: GROUP_NAMES_eval)

lemma GROUP_NAMES_keys: "set GROUP_NAMES = dom (map_of INITIAL_GROUPS)"
  by (simp add: GROUP_NAMES_def dom_map_of_conv_image_fst)

text \<open>
  C9. \<open>montar_classificacao_grupos\<close> on the configured groups always returns, and for
  every group of \<open>GROUP_NAMES\<close> the standings it returns bind the group either to a list
  of 4 entries with no empty marker and no duplicate, or to the empty list; the errors
  contain the message of a group exactly when the group is bound to the empty list.
\<close>

theorem montar_classificacao_grupos_invariant:
  "(\<exists>standings errors.
      montar_classificacao_grupos selectbox INITIAL_GROUPS = Inr (standings, errors))
   \<and> (\<forall>standings errors g.
        montar_classificacao_grupos selectbox groups = Inr (standings, errors)
        \<and> g \<in> set GROUP_NAMES \<longrightarrow>
          (\<exists>ranking. map_of standings g = Some ranking
             \<and> (ranking = []
                \<or> (length ranking = 4 \<and> ''-'' \<notin> set ranking \<and> distinct ranking)))
          \<and> (fill_group_error g \<in> set errors \<longleftrightarrow> map_of standings g = Some []))"
proof (intro conjI allI impI)
  have "set GROUP_NAMES \<subseteq> dom (map_of INITIAL_GROUPS)" by (simp add: GROUP_NAMES_keys)
  from classificar_grupos_total [OF this]
  show "\<exists>standings errors.
      montar_classificacao_grupos selectbox INITIAL_GROUPS = Inr (standings, errors)"
    unfolding montar_classificacao_grupos_def by (metis surj_pair)
next
  fix standings errors g
  assume a: "montar_classificacao_grupos selectbox groups = Inr (standings, errors)
        \<and> g \<in> set GROUP_NAMES"
  then have run: "for_each (classificar_grupo selectbox groups) GROUP_NAMES ([], [])
      = Inr (standings, errors)"
    and g: "g \<in> set GROUP_NAMES"
    by (simp_all add: montar_classificacao_grupos_def)
  from classificar_grupos_invariant [OF run GROUP_NAMES_distinct g]
  have inv: "(\<exists>r. map_of standings g = Some r
                \<and> (r = [] \<or> (length r = 4 \<and> ''-'' \<notin> set r \<and> distinct r)))
           \<and> (fill_group_error g \<in> set errors \<longleftrightarrow> map_of standings g = Some [])"
    by simp
  from inv show "\<exists>ranking. map_of standings g = Some ranking
             \<and> (ranking = []
                \<or> (length ranking = 4 \<and> ''-'' \<notin> set ranking \<and> distinct ranking))"
    by blast
  from inv show "fill_group_error g \<in> set errors \<longleftrightarrow> map_of standings g = Some []"
    by blast
qed


theorem montar_classificacao_grupos_invariant_witness:
  "\<exists>standings errors.
     montar_classificacao_grupos
       (\<lambda>key options. if key = ''group_B_pos_2'' then hd options else options ! 1)
       INITIAL_GROUPS = Inr (standings, errors)
     \<and> map_of standings ''A''
         = Some [''Mexico'', ''South Africa'', ''South Korea'', ''UEFA D (DEN/MKD/CZE/IRL)'']
     \<and> fill_group_error ''A'' \<notin> set errors
     \<and> map_of standings ''B'' = Some []
     \<and> fill_group_error ''B'' \<in> set errors"
proof -
  let ?sb = "\<lambda>(key :: string) (options :: string list).
               if key = ''group_B_pos_2'' then hd options else options ! 1"
  let ?st = "[(''A'', [''Mexico'', ''South Africa'', ''South Korea'', ''UEFA D (DEN/MKD/CZE/IRL)'']),
     (''B'', []),
     (''C'', [''Brazil'', ''Morrocco'', ''Haiti'', ''Scotland'']),
     (''D'', [''USA'', ''Paraguay'', ''Australia'', ''UEFA C (SVK/KOS/TUR/ROU)'']),
     (''E'', [''Germany'', ''Cura'' @ [CHR 0xE7] @ ''ao'', ''Ivory Coast'', ''Ecuador'']),
     (''F'', [''Netherlands'', ''Japan'', ''UEFA B (UKR/SWE/POL/ALB)'', ''Tunisia'']),
     (''G'', [''Belgium'', ''Egypt'', ''Iran'', ''New Zealand'']),
     (''H'', [''Spain'', ''Cabo Verde'', ''Saudi Arabia'', ''Uruguay'']),
     (''I'', [''France'', ''Senegal'', ''IC2 (BOL/SUR/IRQ)'', ''Norway'']),
     (''J'', [''Argentina'', ''Algeria'', ''Austria'', ''Jordan'']),
     (''K'', [''Portugal'', ''IC1 (NCL/JAM/COD)'', ''Uzbekistan'', ''Colombia'']),
     (''L'', [''England'', ''Croatia'', ''Ghana'', ''Panama''])]"
  let ?errs = "[''Fill Group B correctly (no repetition and no empty fields).'']"
  have run: "montar_classificacao_grupos ?sb INITIAL_GROUPS = Inr (?st, ?errs)"
    by code_simp
  have a: "''A'' \<in> set GROUP_NAMES" and b: "''B'' \<in> set GROUP_NAMES"
    by (simp_all add: GROUP_NAMES_eval)
  have sa: "map_of ?st ''A''
      = Some [''Mexico'', ''South Africa'', ''South Korea'', ''UEFA D (DEN/MKD/CZE/IRL)'']"
    and sb: "map_of ?st ''B'' = Some []"
    by simp_all
  note inv = montar_classificacao_grupos_invariant
    [of ?sb INITIAL_GROUPS, THEN conjunct2, rule_format, OF conjI, THEN conjunct2]
  have "fill_group_error ''A'' \<in> set ?errs \<longleftrightarrow> map_of ?st ''A'' = Some []"
    using run a by (rule inv)
  then have ea: "fill_group_error ''A'' \<notin> set ?errs" unfolding sa by simp
  have "fill_group_error ''B'' \<in> set ?errs \<longleftrightarrow> map_of ?st ''B'' = Some []"
    using run b by (rule inv)
  then have eb: "fill_group_error ''B'' \<in> set ?errs" unfolding sb by simp
  show ?thesis
    by (intro exI [of _ ?st] exI [of _ ?errs] conjI run sa sb ea eb)
qed

subsection \<open>Example runs of the page\<close>

text \<open>
  Every group ranked in its configured order, the third-placed teams of groups A to H
  qualified, and the first team of every match chosen: Germany wins the final against
  Brazil, and the third-place match is between the two semifinal losers.
\<close>

lemma app_example_run:
  "(case app (\<lambda>key options. options ! 1)
             (\<lambda>key. key \<in> set (map (\<lambda>g. ''third_'' @ g)
                       [''A'', ''B'', ''C'', ''D'', ''E'', ''F'', ''G'', ''H'']))
             (\<lambda>key options. hd options) of
      Inr (Knockout b) \<Rightarrow> Some (winnersQ b, winnersS b, third b, champion b)
    | _ \<Rightarrow> None)
   = Some ([(''M97'', Some ''Germany''), (''M98'', Some ''IC1 (NCL/JAM/COD)''),
            (''M99'', Some ''Brazil''), (''M100'', Some ''Argentina'')],
           [(''M101'', Some ''Germany''), (''M102'', Some ''Brazil'')],
           Third_place_match (Some ''IC1 (NCL/JAM/COD)'') (Some ''Argentina'')
             (Some ''IC1 (NCL/JAM/COD)''),
           Some ''Germany'')"
  by code_simp

text \<open>A group with an empty position stops the page at the group stage; twelve ticked
  third-placed teams stop it at the selection of the best eight.\<close>

lemma app_example_stops:
  "app (\<lambda>key options. if key = ''group_B_pos_2'' then hd options else options ! 1)
       (\<lambda>key. True) (\<lambda>key options. hd options)
     = Inr (Group_errors [''Fill Group B correctly (no repetition and no empty fields).''])
   \<and> app (\<lambda>key options. options ! 1) (\<lambda>key. True) (\<lambda>key options. hd options)
     = Inr (Third_errors
         [''You must select exactly 8 third-placed teams (currently selected: 12).''])"
  by code_simp

end
